theory Spec2Isabelle
  imports Complex_Main
begin

section \<open>Numbers, vectors and the math utilities\<close>

text \<open>
  JavaScript numbers are modelled as \<^typ>\<open>real\<close>: the development is about the
  arithmetic the code writes down, in exact real arithmetic. A division whose divisor can
  be zero on an input the code accepts is modelled with \<open>js_div\<close>, which reports the
  non-finite result (\<open>NaN\<close>, \<open>Infinity\<close>) instead of HOL's \<open>x / 0 = 0\<close>; likewise
  \<open>js_sqrt\<close> for \<open>Math.sqrt\<close> of a negative number.
\<close>

datatype js_error = NonFinite | TypeError

definition js_div :: "real \<Rightarrow> real \<Rightarrow> js_error + real" where
  "js_div a b = (if b = 0 then Inl NonFinite else Inr (a / b))"

definition js_sqrt :: "real \<Rightarrow> js_error + real" where
  "js_sqrt a = (if a < 0 then Inl NonFinite else Inr (sqrt a))"

text \<open>\<open>THREE.Vector3\<close>, with the operations the particle code calls on it.\<close>

datatype vec3 = Vec3 (vx: real) (vy: real) (vz: real)

definition vadd :: "vec3 \<Rightarrow> vec3 \<Rightarrow> vec3" where
  "vadd a b = Vec3 (vx a + vx b) (vy a + vy b) (vz a + vz b)"

definition vsub :: "vec3 \<Rightarrow> vec3 \<Rightarrow> vec3" where
  "vsub a b = Vec3 (vx a - vx b) (vy a - vy b) (vz a - vz b)"

definition multiplyScalar :: "vec3 \<Rightarrow> real \<Rightarrow> vec3" where
  "multiplyScalar a s = Vec3 (vx a * s) (vy a * s) (vz a * s)"

definition dot :: "vec3 \<Rightarrow> vec3 \<Rightarrow> real" where
  "dot a b = vx a * vx b + vy a * vy b + vz a * vz b"

definition vlength :: "vec3 \<Rightarrow> real" where
  "vlength a = sqrt (dot a a)"

text \<open>\<open>normalize()\<close> divides by \<open>length() || 1\<close>: the zero vector stays zero.\<close>

definition normalize :: "vec3 \<Rightarrow> vec3" where
  "normalize a = multiplyScalar a (1 / (if vlength a = 0 then 1 else vlength a))"

text \<open>mathUtils.js\<close>

definition lerpVec3 :: "vec3 \<Rightarrow> vec3 \<Rightarrow> real \<Rightarrow> vec3" where
  "lerpVec3 a b t =
     Vec3 (vx a + (vx b - vx a) * t) (vy a + (vy b - vy a) * t) (vz a + (vz b - vz a) * t)"

definition easeInOutSine :: "real \<Rightarrow> real" where
  "easeInOutSine t = - (cos (pi * t) - 1) / 2"

definition clamp :: "real \<Rightarrow> real \<Rightarrow> real \<Rightarrow> real" where
  "clamp val lo hi = max lo (min hi val)"

section \<open>ParticleSphere: the particle field and its construction\<close>

record ParticleSphere =
  DOT_COUNT :: nat
  RADIUS :: real
  positions :: "real list"
  originalPositions :: "real list"
  morphTargets :: "real list"
  spreadOffsets :: "real list"
  spreadTimers :: "real list"
  spreadVels :: "real list"
  spreadKickT :: "real list"
  spreadKickDir :: "vec3 list"
  spreadKickStart :: "vec3 list"
  spreadReturnT :: "real list"
  colors :: "real list"

text \<open>
  The Fibonacci-sphere coordinates of one index (the first five lines of the loop body of
  \<open>initParticles\<close>). \<open>i * 1.618034 % 1\<close> is the fractional part, \<open>i\<close> being
  non-negative. With \<open>DOT_COUNT = 1\<close> the quotient \<open>i / (DOT_COUNT - 1)\<close> is \<open>0 / 0\<close>.
\<close>

definition fibonacciPoint :: "nat \<Rightarrow> nat \<Rightarrow> js_error + vec3" where
  "fibonacciPoint count i =
     (case js_div (real i) (real count - 1) of
        Inl e \<Rightarrow> Inl e
      | Inr q \<Rightarrow>
         (let y = 1 - q * 2 in
          case js_sqrt (1 - y * y) of
            Inl e \<Rightarrow> Inl e
          | Inr radius \<Rightarrow>
             (let theta = pi * 2 * frac (real i * 1.618034);
                  x = cos theta * radius;
                  z = sin theta * radius
              in Inr (Vec3 x y z))))"

text \<open>One iteration of the loop of \<open>initParticles\<close>: every array grows by one particle.\<close>

definition pushParticle :: "ParticleSphere \<Rightarrow> nat \<Rightarrow> js_error + ParticleSphere" where
  "pushParticle ps i =
     (case fibonacciPoint (DOT_COUNT ps) i of
        Inl e \<Rightarrow> Inl e
      | Inr p \<Rightarrow>
         (let c = [vx p * RADIUS ps, vy p * RADIUS ps, vz p * RADIUS ps] in
          Inr (ps\<lparr> positions := positions ps @ c,
                   originalPositions := originalPositions ps @ c,
                   morphTargets := morphTargets ps @ c,
                   spreadOffsets := spreadOffsets ps @ [0, 0, 0],
                   spreadTimers := spreadTimers ps @ [0],
                   spreadVels := spreadVels ps @ [0, 0, 0],
                   spreadKickT := spreadKickT ps @ [1],
                   spreadKickDir := spreadKickDir ps @ [Vec3 0 0 0],
                   spreadKickStart := spreadKickStart ps @ [Vec3 0 0 0],
                   spreadReturnT := spreadReturnT ps @ [1],
                   colors := colors ps @ [1, 1, 1] \<rparr>)))"

text \<open>
  The loop \<open>for (i = 0; i < DOT_COUNT; i++)\<close>, over the indices still to visit. The
  result \<open>Inl NonFinite\<close> stands for a field whose arrays hold a non-finite coordinate.
\<close>

fun initLoop :: "nat list \<Rightarrow> ParticleSphere \<Rightarrow> js_error + ParticleSphere" where
  "initLoop [] ps = Inr ps"
| "initLoop (i # is) ps =
     (case pushParticle ps i of Inl e \<Rightarrow> Inl e | Inr ps' \<Rightarrow> initLoop is ps')"

definition initParticles :: "ParticleSphere \<Rightarrow> js_error + ParticleSphere" where
  "initParticles ps = initLoop [0..<DOT_COUNT ps] ps"

text \<open>The constructor \<open>new ParticleSphere({ dotCount, radius })\<close>.\<close>

definition newParticleSphere :: "nat \<Rightarrow> real \<Rightarrow> js_error + ParticleSphere" where
  "newParticleSphere dotCount radius =
     initParticles \<lparr> DOT_COUNT = dotCount, RADIUS = radius, positions = [],
                     originalPositions = [], morphTargets = [], spreadOffsets = [],
                     spreadTimers = [], spreadVels = [], spreadKickT = [],
                     spreadKickDir = [], spreadKickStart = [], spreadReturnT = [],
                     colors = [] \<rparr>"

text \<open>ParticleFactory.createDefaultSphere\<close>

definition createDefaultSphere :: "js_error + ParticleSphere" where
  "createDefaultSphere = newParticleSphere 1600 2"

text \<open>Reading the \<open>i\<close>-th triple of a flat coordinate array.\<close>

definition triple :: "real list \<Rightarrow> nat \<Rightarrow> vec3" where
  "triple xs i = Vec3 (xs ! (i * 3)) (xs ! (i * 3 + 1)) (xs ! (i * 3 + 2))"

text \<open>
  The lattice as the specification words it, with the fractional part of the golden
  ratio: \<open>y = 1 - 2 i / (count - 1)\<close>, \<open>r = sqrt (1 - y\<^sup>2)\<close>,
  \<open>theta = 2 pi frac (i * 0.618034)\<close>, point \<open>(cos theta * r, y, sin theta * r) * radius\<close>.
\<close>

definition spec_lattice_point :: "nat \<Rightarrow> real \<Rightarrow> nat \<Rightarrow> vec3" where
  "spec_lattice_point count radius i =
     (let y = 1 - 2 * real i / (real count - 1);
          r = sqrt (1 - y\<^sup>2);
          theta = 2 * pi * frac (real i * 0.618034)
      in multiplyScalar (Vec3 (cos theta * r) y (sin theta * r)) radius)"

section \<open>ParticleInteractionService\<close>

subsection \<open>The frame context\<close>

text \<open>
  What the code takes from three.js and the browser is a parameter of the model:
  \<^item> a pointer sample \<open>{ x, y }\<close> in screen pixels;
  \<^item> a \<open>THREE.Ray\<close> (origin and direction);
  \<^item> the camera: its \<open>position\<close>, and \<open>setFromCamera\<close>, the ray that
    \<open>Raycaster.setFromCamera(ndc, camera)\<close> builds through a point in normalized
    device coordinates (a Raycaster keeps its direction normalized);
  \<^item> the \<open>THREE.Points\<close> object: \<open>applyQuat\<close> is \<open>v.applyQuaternion(points.quaternion)\<close>,
    \<open>applyInvQuat\<close> is \<open>v.applyQuaternion(points.quaternion.clone().invert())\<close>, and the
    two render buffers \<open>geometry.attributes.position.array\<close> and \<open>color.array\<close>.
\<close>

datatype pointer = Pointer (ptr_x: real) (ptr_y: real)

datatype ray = Ray (origin: vec3) (direction: vec3)

record camera =
  position :: vec3
  setFromCamera :: "real \<times> real \<Rightarrow> ray"

record points =
  applyQuat :: "vec3 \<Rightarrow> vec3"
  applyInvQuat :: "vec3 \<Rightarrow> vec3"
  positionArray :: "real list"
  colorArray :: "real list"

text \<open>
  The argument of \<open>update\<close>, with \<open>window.innerWidth\<close> and \<open>window.innerHeight\<close> as
  read during the call. \<open>null\<close> is \<open>None\<close>; of \<open>lastPointerEvent\<close> only the truthiness
  is used. \<open>time\<close> is the timestamp of the frame callback (the very first call of
  \<open>animate\<close> has none; \<open>time\<close> enters the render buffers only, never the particle field).
\<close>

record frame =
  time :: real
  pointer :: "pointer option"
  lastPointer :: "pointer option"
  lastPointerEvent :: bool
  points :: "points option"
  camera :: "camera option"
  innerWidth :: real
  innerHeight :: real

text \<open>
  The service object. \<open>enableMorph\<close> is the property the composition root assigns from
  the toggle switch (\<open>None\<close> while it is undefined); the constructor does not create it.
\<close>

record service =
  particleSphere :: ParticleSphere
  morphLerp :: real
  morphTarget :: real
  enableMorph :: "bool option"

definition newParticleInteractionService :: "ParticleSphere \<Rightarrow> service" where
  "newParticleInteractionService ps =
     \<lparr> particleSphere = ps, morphLerp = 1, morphTarget = 1, enableMorph = None \<rparr>"

text \<open>The toggle wiring of the composition root: \<open>interactionService.enableMorph = checked\<close>.\<close>

definition setEnableMorph :: "bool \<Rightarrow> service \<Rightarrow> service" where
  "setEnableMorph checked svc = svc\<lparr> enableMorph := Some checked \<rparr>"

text \<open>The scale \<open>animate\<close> gives the points object each frame, read from the flag.\<close>

definition animateScale :: "service \<Rightarrow> real \<Rightarrow> real" where
  "animateScale svc t =
     (let breath = 1 + sin (t * 0.001) * 0.05
      in if enableMorph svc = Some True then breath else 1)"

subsection \<open>animateSpreadReturn\<close>

text \<open>The body of the loop of \<open>animateSpreadReturn\<close> for index \<open>i\<close>.\<close>

definition animateDot :: "nat \<Rightarrow> ParticleSphere \<Rightarrow> ParticleSphere" where
  "animateDot i ps =
     (if spreadKickT ps ! i < 1 then
        (let kt0 = spreadKickT ps ! i + 0.035;
             kt = (if kt0 > 1 then 1 else kt0);
             ease = easeInOutSine kt;
             ks = spreadKickStart ps ! i;
             kd = spreadKickDir ps ! i
         in ps\<lparr> spreadKickT := (spreadKickT ps)[i := kt],
                 spreadOffsets := (spreadOffsets ps)
                   [i * 3 := vx ks + vx kd * ease,
                    i * 3 + 1 := vy ks + vy kd * ease,
                    i * 3 + 2 := vz ks + vz kd * ease] \<rparr>)
      else if spreadTimers ps ! i > 0 then
        (let t0 = spreadTimers ps ! i - 0.017;
             t = (if t0 < 0 then 0 else t0)
         in ps\<lparr> spreadTimers := (spreadTimers ps)[i := t] \<rparr>)
      else
        (let off = spreadOffsets ps
         in ps\<lparr> spreadOffsets := off
                   [i * 3 := off ! (i * 3) + (0 - off ! (i * 3)) * 0.03,
                    i * 3 + 1 := off ! (i * 3 + 1) + (0 - off ! (i * 3 + 1)) * 0.03,
                    i * 3 + 2 := off ! (i * 3 + 2) + (0 - off ! (i * 3 + 2)) * 0.03] \<rparr>))"

definition animateSpreadReturn :: "ParticleSphere \<Rightarrow> ParticleSphere" where
  "animateSpreadReturn ps = fold animateDot [0..<DOT_COUNT ps] ps"

subsection \<open>spreadDots\<close>

text \<open>
  The pointer in normalized device coordinates, for a window of non-zero width and height
  (at a zero size the quotients of the code are not finite).
\<close>

definition mouseNDC :: "real \<Rightarrow> real \<Rightarrow> pointer \<Rightarrow> real \<times> real" where
  "mouseNDC w h p = ((ptr_x p / w) * 2 - 1, - (ptr_y p / h) * 2 + 1)"

text \<open>
  The ray/sphere intersection with its fallback. The code has it twice, once for the
  pointer and once for the previous pointer, from \<open>rayDir.dot(rayDir)\<close> to the assignment
  of \<open>cursorWorld\<close> (\<open>prevCursorWorld\<close>). The direction of a Raycaster's ray is not zero,
  so the divisor \<open>2 * a\<close> is not.
\<close>

definition resolveCursor :: "real \<Rightarrow> vec3 \<Rightarrow> ray \<Rightarrow> vec3" where
  "resolveCursor radius camPos r =
     (let rayOrigin = origin r;
          rayDir = direction r;
          a = dot rayDir rayDir;
          b = 2 * dot rayOrigin rayDir;
          c = dot rayOrigin rayOrigin - radius * radius;
          discriminant = b * b - 4 * a * c
      in if discriminant \<ge> 0 then
           (let t = (- b - sqrt discriminant) / (2 * a)
            in vadd rayOrigin (multiplyScalar rayDir t))
         else
           (let camToPointer = vadd rayOrigin (multiplyScalar rayDir 5);
                dir = normalize (vsub camToPointer camPos)
            in vadd camPos (multiplyScalar dir radius)))"

definition cursorWorldOf :: "ParticleSphere \<Rightarrow> camera \<Rightarrow> real \<Rightarrow> real \<Rightarrow> pointer \<Rightarrow> vec3" where
  "cursorWorldOf ps cam w h p =
     resolveCursor (RADIUS ps) (position cam) (setFromCamera cam (mouseNDC w h p))"

text \<open>\<open>force = pointerSpeed / 5\<close>, from the pointer and the previous pointer.\<close>

definition pointerForce :: "pointer \<Rightarrow> pointer option \<Rightarrow> real" where
  "pointerForce p lastP =
     (let dx = (case lastP of Some l \<Rightarrow> ptr_x p - ptr_x l | None \<Rightarrow> 0);
          dy = (case lastP of Some l \<Rightarrow> ptr_y p - ptr_y l | None \<Rightarrow> 0);
          pointerSpeed = sqrt (dx * dx + dy * dy)
      in pointerSpeed / 5)"

text \<open>
  The body of the inner loop of \<open>spreadDots\<close> for index \<open>i\<close>, on the particle field,
  \<open>kicksThisStep\<close> and \<open>touchedThisFrame\<close>.
\<close>

definition spreadDot ::
  "points \<Rightarrow> pointer \<Rightarrow> pointer option \<Rightarrow> vec3 \<Rightarrow> vec3 \<Rightarrow> nat \<Rightarrow>
   ParticleSphere \<times> nat \<times> bool list \<Rightarrow> ParticleSphere \<times> nat \<times> bool list" where
  "spreadDot pts p lastP cursorWorld interpCursor i st =
     (case st of (ps, kicksThisStep, touchedThisFrame) \<Rightarrow>
      if spreadKickT ps ! i < 1 then st
      else
        (let CURSOR_RADIUS = RADIUS ps * 0.38;
             px = originalPositions ps ! (i * 3);
             py = originalPositions ps ! (i * 3 + 1);
             pz = originalPositions ps ! (i * 3 + 2);
             dotLocal = Vec3 px py pz;
             dotWorld = applyQuat pts dotLocal;
             toCursor = vsub dotWorld interpCursor;
             dist = vlength toCursor
         in if dist < CURSOR_RADIUS then
              (let exclusionSurfaceWorld =
                     vadd interpCursor
                       (multiplyScalar (normalize toCursor) (CURSOR_RADIUS + 0.001));
                   exclusionSurfaceLocal = applyInvQuat pts exclusionSurfaceWorld;
                   force = pointerForce p lastP;
                   snapped = (spreadOffsets ps)
                     [i * 3 := vx exclusionSurfaceLocal - px,
                      i * 3 + 1 := vy exclusionSurfaceLocal - py,
                      i * 3 + 2 := vz exclusionSurfaceLocal - pz]
               in if force > 0.5 \<and> kicksThisStep < 2 then
                    (let spreadAmt =
                           clamp (0.7 * (max 0 (force - 1.0) powr 1.15)) 0 (RADIUS ps * 0.7);
                         radial = normalize toCursor;
                         kickDirWorld = multiplyScalar radial spreadAmt
                     in (ps\<lparr> spreadKickStart := (spreadKickStart ps)
                                [i := Vec3 (vx exclusionSurfaceLocal - px)
                                           (vy exclusionSurfaceLocal - py)
                                           (vz exclusionSurfaceLocal - pz)],
                              spreadKickT := (spreadKickT ps)[i := 0],
                              spreadKickDir := (spreadKickDir ps)
                                [i := applyInvQuat pts kickDirWorld],
                              spreadOffsets := snapped \<rparr>,
                         kicksThisStep + 1,
                         touchedThisFrame[i := True]))
                  else
                    (ps\<lparr> spreadOffsets := snapped \<rparr>,
                     kicksThisStep,
                     touchedThisFrame[i := True]))
            else if dist < CURSOR_RADIUS + 0.18 then
              (let target =
                     vadd cursorWorld
                       (multiplyScalar (normalize toCursor) (CURSOR_RADIUS + 0.001));
                   targetLocal = applyInvQuat pts target;
                   off = spreadOffsets ps
               in (ps\<lparr> spreadOffsets := off
                          [i * 3 := off ! (i * 3)
                                     + (vx targetLocal - (px + off ! (i * 3))) * 0.18,
                           i * 3 + 1 := off ! (i * 3 + 1)
                                     + (vy targetLocal - (py + off ! (i * 3 + 1))) * 0.18,
                           i * 3 + 2 := off ! (i * 3 + 2)
                                     + (vz targetLocal - (pz + off ! (i * 3 + 2))) * 0.18],
                        spreadTimers := (spreadTimers ps)[i := 0.4] \<rparr>,
                   kicksThisStep,
                   touchedThisFrame[i := True]))
            else st))"

text \<open>
  The interpolated cursor of step \<open>s\<close> of \<open>steps = 12\<close>: \<open>prevCursorWorld && cursorWorld\<close>
  holds exactly when there is a previous cursor.
\<close>

definition interpCursorAt :: "vec3 option \<Rightarrow> vec3 \<Rightarrow> nat \<Rightarrow> vec3" where
  "interpCursorAt prevCursorWorld cursorWorld s =
     (case prevCursorWorld of
        Some prev \<Rightarrow> lerpVec3 prev cursorWorld (real s / 12)
      | None \<Rightarrow> cursorWorld)"

text \<open>
  The inner loop over all dots for one step, from \<open>kicksThisStep = 0\<close>; it returns the
  field, the number of kicks of the step and \<open>touchedThisFrame\<close>.
\<close>

definition spreadStepLoop ::
  "points \<Rightarrow> pointer \<Rightarrow> pointer option \<Rightarrow> vec3 \<Rightarrow> vec3 \<Rightarrow>
   ParticleSphere \<times> bool list \<Rightarrow> ParticleSphere \<times> nat \<times> bool list" where
  "spreadStepLoop pts p lastP cursorWorld interpCursor st =
     fold (spreadDot pts p lastP cursorWorld interpCursor) [0..<DOT_COUNT (fst st)]
       (fst st, 0, snd st)"

text \<open>One iteration of the outer loop \<open>for (s = 0; s <= steps; s++)\<close>.\<close>

definition spreadStep ::
  "points \<Rightarrow> pointer \<Rightarrow> pointer option \<Rightarrow> vec3 option \<Rightarrow> vec3 \<Rightarrow> nat \<Rightarrow>
   ParticleSphere \<times> bool list \<Rightarrow> ParticleSphere \<times> bool list" where
  "spreadStep pts p lastP prevCursorWorld cursorWorld s st =
     (case spreadStepLoop pts p lastP cursorWorld
             (interpCursorAt prevCursorWorld cursorWorld s) st of
        (ps, kicksThisStep, touchedThisFrame) \<Rightarrow> (ps, touchedThisFrame))"

text \<open>The last loop of \<open>spreadDots\<close>: an untouched dot loses its timer.\<close>

definition resetUntouched :: "bool list \<Rightarrow> nat \<Rightarrow> ParticleSphere \<Rightarrow> ParticleSphere" where
  "resetUntouched touchedThisFrame i ps =
     (if \<not> touchedThisFrame ! i then ps\<lparr> spreadTimers := (spreadTimers ps)[i := 0] \<rparr>
      else ps)"

text \<open>
  \<open>prevCursorWorld\<close>: resolved from the previous pointer when \<open>lastPointer && lastPointerEvent\<close>,
  else null.
\<close>

definition prevCursorWorldOf ::
  "ParticleSphere \<Rightarrow> camera \<Rightarrow> real \<Rightarrow> real \<Rightarrow> pointer option \<Rightarrow> bool \<Rightarrow> vec3 option" where
  "prevCursorWorldOf ps cam w h lastP lastEv =
     (case lastP of
        Some l \<Rightarrow> if lastEv then Some (cursorWorldOf ps cam w h l) else None
      | None \<Rightarrow> None)"

text \<open>
  \<open>spreadDots\<close> up to the end of the loop over the steps: the field and
  \<open>touchedThisFrame\<close> after the 13 samples \<open>s = 0, ..., 12\<close>.
\<close>

definition spreadSteps ::
  "ParticleSphere \<Rightarrow> pointer \<Rightarrow> pointer option \<Rightarrow> bool \<Rightarrow> points \<Rightarrow> camera \<Rightarrow>
   real \<Rightarrow> real \<Rightarrow> ParticleSphere \<times> bool list" where
  "spreadSteps ps p lastP lastEv pts cam w h =
     (let cursorWorld = cursorWorldOf ps cam w h p;
          prevCursorWorld = prevCursorWorldOf ps cam w h lastP lastEv
      in fold (spreadStep pts p lastP prevCursorWorld cursorWorld) [0..<13]
           (ps, replicate (DOT_COUNT ps) False))"

definition spreadDots ::
  "ParticleSphere \<Rightarrow> pointer \<Rightarrow> pointer option \<Rightarrow> bool \<Rightarrow> points \<Rightarrow> camera \<Rightarrow>
   real \<Rightarrow> real \<Rightarrow> ParticleSphere" where
  "spreadDots ps p lastP lastEv pts cam w h =
     (let st = spreadSteps ps p lastP lastEv pts cam w h
      in fold (resetUntouched (snd st)) [0..<DOT_COUNT (fst st)] (fst st))"

subsection \<open>update\<close>

text \<open>
  \<open>Math.atan2(y, x)\<close> on finite arguments. The reals have one zero: where the code holds
  a negative zero (\<open>Math.atan2(-0, -0) = - pi\<close>, \<open>Math.atan2(0, -0) = pi\<close>) the model takes
  the value at the positive zero.
\<close>

definition atan2 :: "real \<Rightarrow> real \<Rightarrow> real" where
  "atan2 y x =
     (if x > 0 then arctan (y / x)
      else if x < 0 then (if y \<ge> 0 then arctan (y / x) + pi else arctan (y / x) - pi)
      else if y > 0 then pi / 2
      else if y < 0 then - pi / 2
      else 0)"

text \<open>
  \<open>baseOffset\<close> and \<open>radOffset\<close> of the radial morph for index \<open>i\<close>, for a field whose
  \<open>RADIUS\<close> is not zero (at radius 0 the quotients \<open>x0 / RADIUS\<close> of the code are not
  numbers).
\<close>

definition baseOffset :: "ParticleSphere \<Rightarrow> real \<Rightarrow> nat \<Rightarrow> real" where
  "baseOffset ps t i =
     (let waveSpeed1 = 0.002;
          waveSpeed2 = 0.001;
          ampRadius = RADIUS ps * 0.15;
          x0 = originalPositions ps ! (i * 3);
          y0 = originalPositions ps ! (i * 3 + 1);
          z0 = originalPositions ps ! (i * 3 + 2);
          ux = x0 / RADIUS ps; uy = y0 / RADIUS ps; uz = z0 / RADIUS ps;
          uyClamped = clamp uy (- 1) 1;
          theta = arccos uyClamped;
          phi = atan2 uz ux;
          wave1 = sin (t * waveSpeed1 + theta * 5 + phi * 3);
          wave2 = cos (t * waveSpeed2 + theta * 3 - phi * 2)
      in (wave1 + wave2) * 0.5 * ampRadius)"

definition radOffset :: "ParticleSphere \<Rightarrow> real \<Rightarrow> real \<Rightarrow> nat \<Rightarrow> real" where
  "radOffset ps ml t i = baseOffset ps t i * ml"

text \<open>
  The body of the position loop of \<open>update\<close>, on the position buffer, again for a
  \<open>RADIUS\<close> that is not zero.
\<close>

definition morphDot :: "ParticleSphere \<Rightarrow> real \<Rightarrow> real \<Rightarrow> nat \<Rightarrow> real list \<Rightarrow> real list" where
  "morphDot ps ml t i pos =
     (let idx = i * 3;
          orig = originalPositions ps;
          off = spreadOffsets ps;
          ux = orig ! idx / RADIUS ps;
          uy = orig ! (idx + 1) / RADIUS ps;
          uz = orig ! (idx + 2) / RADIUS ps;
          r = RADIUS ps + radOffset ps ml t i
      in pos[idx := ux * r + off ! idx,
             idx + 1 := uy * r + off ! (idx + 1),
             idx + 2 := uz * r + off ! (idx + 2)])"

text \<open>The body of the colour loop of \<open>update\<close>: blue or white.\<close>

definition blinkDot :: "real \<Rightarrow> nat \<Rightarrow> real list \<Rightarrow> real list" where
  "blinkDot t i col =
     (let idx = i * 3;
          blinkSpeed = 0.01;
          flick = (sin (t * blinkSpeed + real i) > 0)
      in if flick then col[idx := 0.1176, idx + 1 := 0.5647, idx + 2 := 1.0]
         else col[idx := 1.0, idx + 1 := 1.0, idx + 2 := 1.0])"

text \<open>
  \<open>update\<close> returns the service as the call leaves it and the points object with its
  buffers rewritten. With \<open>points\<close> null the read of \<open>points.geometry\<close> throws a
  \<open>TypeError\<close>, after \<open>animateSpreadReturn\<close> and the easing of \<open>morphLerp\<close> have run.
\<close>

definition update :: "service \<Rightarrow> frame \<Rightarrow> service \<times> (js_error + points)" where
  "update svc fr =
     (let ps1 = animateSpreadReturn (particleSphere svc);
          ml = morphLerp svc + (morphTarget svc - morphLerp svc) * 0.05;
          ps2 = (case pointer fr of
                   Some p \<Rightarrow>
                     (case points fr of
                        Some pts \<Rightarrow>
                          (case camera fr of
                             Some cam \<Rightarrow>
                               spreadDots ps1 p (lastPointer fr) (lastPointerEvent fr)
                                 pts cam (innerWidth fr) (innerHeight fr)
                           | None \<Rightarrow> ps1)
                      | None \<Rightarrow> ps1)
                 | None \<Rightarrow> ps1);
          svc' = svc\<lparr> particleSphere := ps2, morphLerp := ml \<rparr>
      in case points fr of
           None \<Rightarrow> (svc', Inl TypeError)
         | Some pts \<Rightarrow>
             (svc',
              Inr (pts\<lparr> positionArray :=
                          fold (morphDot ps2 ml (time fr)) [0..<DOT_COUNT ps2]
                            (positionArray pts),
                        colorArray :=
                          fold (blinkDot (time fr)) [0..<DOT_COUNT ps2] (colorArray pts) \<rparr>)))"

text \<open>The service after a sequence of frames, one \<open>update\<close> per frame.\<close>

definition runFrames :: "service \<Rightarrow> frame list \<Rightarrow> service" where
  "runFrames svc frs = fold (\<lambda>fr s. fst (update s fr)) frs svc"

text \<open>
  The frame loop of the composition root with the toggle switch held at \<open>checked\<close>: the
  flag is assigned, then \<open>animate\<close> calls \<open>update\<close>.
\<close>

definition runFramesWithToggle :: "bool \<Rightarrow> service \<Rightarrow> frame list \<Rightarrow> service" where
  "runFramesWithToggle checked svc frs =
     fold (\<lambda>fr s. fst (update (setEnableMorph checked s) fr)) frs svc"

section \<open>Vocabulary of the properties\<close>

text \<open>
  The arrays of a field are sized to \<open>DOT_COUNT\<close> at construction and never resized.
\<close>

definition sized :: "ParticleSphere \<Rightarrow> bool" where
  "sized ps \<longleftrightarrow>
     length (originalPositions ps) = 3 * DOT_COUNT ps \<and>
     length (spreadOffsets ps) = 3 * DOT_COUNT ps \<and>
     length (spreadTimers ps) = DOT_COUNT ps \<and>
     length (spreadKickT ps) = DOT_COUNT ps \<and>
     length (spreadKickDir ps) = DOT_COUNT ps \<and>
     length (spreadKickStart ps) = DOT_COUNT ps"

text \<open>The per-point quantities under the names of the specification.\<close>

definition kickProgress :: "ParticleSphere \<Rightarrow> nat \<Rightarrow> real" where
  "kickProgress ps i = spreadKickT ps ! i"

definition returnTimer :: "ParticleSphere \<Rightarrow> nat \<Rightarrow> real" where
  "returnTimer ps i = spreadTimers ps ! i"

definition spreadOffset :: "ParticleSphere \<Rightarrow> nat \<Rightarrow> vec3" where
  "spreadOffset ps i = triple (spreadOffsets ps) i"

definition originalPosition :: "ParticleSphere \<Rightarrow> nat \<Rightarrow> vec3" where
  "originalPosition ps i = triple (originalPositions ps) i"

definition kickStart :: "ParticleSphere \<Rightarrow> nat \<Rightarrow> vec3" where
  "kickStart ps i = spreadKickStart ps ! i"

definition kickDirection :: "ParticleSphere \<Rightarrow> nat \<Rightarrow> vec3" where
  "kickDirection ps i = spreadKickDir ps ! i"

text \<open>What no frame changes: the count, the radius and the original positions.\<close>

definition layout :: "ParticleSphere \<Rightarrow> nat \<times> real \<times> real list" where
  "layout ps = (DOT_COUNT ps, RADIUS ps, originalPositions ps)"

text \<open>The dynamic state of one point.\<close>

definition dotState :: "ParticleSphere \<Rightarrow> nat \<Rightarrow> real \<times> real \<times> vec3 \<times> vec3 \<times> vec3" where
  "dotState ps i =
     (kickProgress ps i, returnTimer ps i, spreadOffset ps i, kickStart ps i,
      kickDirection ps i)"

text \<open>
  The per-point transition of \<open>animateSpreadReturn\<close> as the specification words it: a
  kicking point advances by 0.035 clamped to 1 and follows the eased kick; a held point
  counts its timer down by 0.017, floored at 0; a point at rest eases its offset 3\%
  toward zero.
\<close>

definition spec_pointStep ::
  "real \<times> real \<times> vec3 \<times> vec3 \<times> vec3 \<Rightarrow> real \<times> real \<times> vec3 \<times> vec3 \<times> vec3" where
  "spec_pointStep d =
     (case d of (kt, tm, off, ks, kd) \<Rightarrow>
        if kt < 1 then
          (min 1 (kt + 0.035), tm,
           vadd ks (multiplyScalar kd (easeInOutSine (min 1 (kt + 0.035)))), ks, kd)
        else if tm > 0 then (kt, max 0 (tm - 0.017), off, ks, kd)
        else (kt, tm, multiplyScalar off 0.97, ks, kd))"

text \<open>\<open>CURSOR_RADIUS\<close>, and \<open>dist\<close>: how far the rotated point is from a cursor sample.\<close>

definition cursorRadius :: "ParticleSphere \<Rightarrow> real" where
  "cursorRadius ps = RADIUS ps * 0.38"

definition distToCursor :: "ParticleSphere \<Rightarrow> points \<Rightarrow> vec3 \<Rightarrow> nat \<Rightarrow> real" where
  "distToCursor ps pts c i = vlength (vsub (applyQuat pts (originalPosition ps i)) c)"

text \<open>The pointer pass runs when \<open>pointer && points && camera\<close>.\<close>

definition pointerPass :: "frame \<Rightarrow> bool" where
  "pointerPass fr \<longleftrightarrow> pointer fr \<noteq> None \<and> points fr \<noteq> None \<and> camera fr \<noteq> None"

text \<open>
  No pointer proximity for point \<open>i\<close> in a frame: the pointer pass does not run, or the
  point is outside the exclusion zone and the soft band (\<open>dist < CURSOR_RADIUS + 0.18\<close>
  fails) at each of the 13 cursor samples.
\<close>

definition noProximity :: "ParticleSphere \<Rightarrow> frame \<Rightarrow> nat \<Rightarrow> bool" where
  "noProximity ps fr i =
     (case pointer fr of
        None \<Rightarrow> True
      | Some p \<Rightarrow>
         (case points fr of
            None \<Rightarrow> True
          | Some pts \<Rightarrow>
             (case camera fr of
                None \<Rightarrow> True
              | Some cam \<Rightarrow>
                 (let cursorWorld = cursorWorldOf ps cam (innerWidth fr) (innerHeight fr) p;
                      prevCursorWorld =
                        prevCursorWorldOf ps cam (innerWidth fr) (innerHeight fr)
                          (lastPointer fr) (lastPointerEvent fr)
                  in list_all
                       (\<lambda>s. \<not> distToCursor ps pts (interpCursorAt prevCursorWorld cursorWorld s) i
                               < cursorRadius ps + 0.18)
                       [0..<13]))))"

text \<open>
  The transition of a point over a whole frame in which nothing touches it: the step of
  \<open>animateSpreadReturn\<close>, and the timer reset to 0 when the pointer pass runs.
\<close>

definition spec_quietFrame ::
  "bool \<Rightarrow> real \<times> real \<times> vec3 \<times> vec3 \<times> vec3 \<Rightarrow> real \<times> real \<times> vec3 \<times> vec3 \<times> vec3" where
  "spec_quietFrame pass d =
     (case spec_pointStep d of (kt, tm, off, ks, kd) \<Rightarrow>
        (kt, if pass then 0 else tm, off, ks, kd))"

text \<open>
  The three dynamic regimes of a point, first as the invariant of the data model words
  them, then \<open>held\<close> as the state machine defines Held (\<open>kickProgress == 1\<close>,
  \<open>returnTimer > 0\<close>). \<open>exactlyOne\<close> counts the regimes that hold.
\<close>

definition kicking :: "ParticleSphere \<Rightarrow> nat \<Rightarrow> bool" where
  "kicking ps i \<longleftrightarrow> kickProgress ps i < 1"

definition holding :: "ParticleSphere \<Rightarrow> nat \<Rightarrow> bool" where
  "holding ps i \<longleftrightarrow> returnTimer ps i > 0"

definition returning :: "ParticleSphere \<Rightarrow> nat \<Rightarrow> bool" where
  "returning ps i \<longleftrightarrow> returnTimer ps i = 0 \<and> kickProgress ps i = 1"

definition held :: "ParticleSphere \<Rightarrow> nat \<Rightarrow> bool" where
  "held ps i \<longleftrightarrow> kickProgress ps i = 1 \<and> returnTimer ps i > 0"

definition exactlyOne :: "bool list \<Rightarrow> bool" where
  "exactlyOne bs \<longleftrightarrow> length (filter id bs) = 1"

text \<open>
  The new kicks between two states of the field: the points that were not kicking and
  have \<open>kickProgress\<close> set to 0.
\<close>

definition newKicks :: "ParticleSphere \<Rightarrow> ParticleSphere \<Rightarrow> nat" where
  "newKicks ps ps' =
     length (filter (\<lambda>i. \<not> spreadKickT ps ! i < 1 \<and> spreadKickT ps' ! i = 0)
               [0..<DOT_COUNT ps])"

text \<open>The coefficients of the ray/sphere quadratic and its discriminant.\<close>

definition rayA :: "ray \<Rightarrow> real" where
  "rayA r = dot (direction r) (direction r)"

definition rayB :: "ray \<Rightarrow> real" where
  "rayB r = 2 * dot (origin r) (direction r)"

definition rayC :: "real \<Rightarrow> ray \<Rightarrow> real" where
  "rayC radius r = dot (origin r) (origin r) - radius * radius"

definition rayDiscriminant :: "real \<Rightarrow> ray \<Rightarrow> real" where
  "rayDiscriminant radius r = rayB r * rayB r - 4 * rayA r * rayC radius r"

text \<open>
  Two measures of a point's dynamic state for the return home: the number of quiet frames
  until it is at rest (the kick still to run at 0.035 per frame, then the timer at 0.017
  per frame), and a bound on its offset until then (the sum of the absolute coordinates of
  the offset, or of the kick's start and direction while it runs).
\<close>

definition l1norm :: "vec3 \<Rightarrow> real" where
  "l1norm v = \<bar>vx v\<bar> + \<bar>vy v\<bar> + \<bar>vz v\<bar>"

definition settleDelay :: "real \<times> real \<times> vec3 \<times> vec3 \<times> vec3 \<Rightarrow> nat" where
  "settleDelay d =
     (case d of (kt, tm, off, ks, kd) \<Rightarrow>
        (if kt < 1 then nat \<lceil>(1 - kt) / 0.035\<rceil> else 0) +
        (if tm > 0 then nat \<lceil>tm / 0.017\<rceil> else 0))"

definition offsetBound :: "real \<times> real \<times> vec3 \<times> vec3 \<times> vec3 \<Rightarrow> real" where
  "offsetBound d =
     (case d of (kt, tm, off, ks, kd) \<Rightarrow>
        max (l1norm off) (if kt < 1 then l1norm ks + l1norm kd else 0))"

section \<open>Example inputs\<close>

text \<open>The field \<open>new ParticleSphere({ dotCount: 2, radius: 2 })\<close>: the two poles.\<close>

definition sphere2 :: ParticleSphere where
  "sphere2 =
     \<lparr> DOT_COUNT = 2, RADIUS = 2,
       positions = [0, 2, 0, 0, - 2, 0],
       originalPositions = [0, 2, 0, 0, - 2, 0],
       morphTargets = [0, 2, 0, 0, - 2, 0],
       spreadOffsets = [0, 0, 0, 0, 0, 0],
       spreadTimers = [0, 0],
       spreadVels = [0, 0, 0, 0, 0, 0],
       spreadKickT = [1, 1],
       spreadKickDir = [Vec3 0 0 0, Vec3 0 0 0],
       spreadKickStart = [Vec3 0 0 0, Vec3 0 0 0],
       spreadReturnT = [1, 1],
       colors = [1, 1, 1, 1, 1, 1] \<rparr>"

text \<open>The same field with point 0 just kicked upward from a displaced start.\<close>

definition kickedSphere2 :: ParticleSphere where
  "kickedSphere2 =
     sphere2\<lparr> spreadKickT := [0, 1],
              spreadKickStart := [Vec3 0 (1 / 2) 0, Vec3 0 0 0],
              spreadKickDir := [Vec3 0 1 0, Vec3 0 0 0],
              spreadOffsets := [0, 1 / 2, 0, 0, 0, 0] \<rparr>"

text \<open>
  The same field two frames after a brush with the pointer: point 0 was eased in the soft
  band (timer 0.4), then counted down once and snapped (timer 0.383, still displaced);
  point 1 is at rest, displaced, returning home.
\<close>

definition heldSphere2 :: ParticleSphere where
  "heldSphere2 =
     sphere2\<lparr> spreadTimers := [383 / 1000, 0],
              spreadOffsets := [0, 2 / 5, 0, 0, - 2 / 5, 0] \<rparr>"

text \<open>
  An orthographic camera above the sphere, looking down the y axis, whose view is 4 units
  wide and high: the ray through \<open>(nx, ny)\<close> starts at \<open>(2 nx, 5, - 2 ny)\<close>.
\<close>

definition topCamera :: camera where
  "topCamera =
     \<lparr> position = Vec3 0 5 0,
       setFromCamera = (\<lambda>(nx, ny). Ray (Vec3 (2 * nx) 5 (- 2 * ny)) (Vec3 0 (- 1) 0)) \<rparr>"

text \<open>The unrotated points object of \<open>sphere2\<close>.\<close>

definition stillPoints :: points where
  "stillPoints =
     \<lparr> applyQuat = (\<lambda>v. v), applyInvQuat = (\<lambda>v. v),
       positionArray = [0, 2, 0, 0, - 2, 0], colorArray = [1, 1, 1, 1, 1, 1] \<rparr>"

text \<open>A frame before any pointer event, in a window of 1300 by 1300 pixels.\<close>

definition idleFrame :: frame where
  "idleFrame =
     \<lparr> time = 16, pointer = None, lastPointer = None, lastPointerEvent = False,
       points = Some stillPoints, camera = Some topCamera,
       innerWidth = 1300, innerHeight = 1300 \<rparr>"

text \<open>
  A frame after a fast swipe across the north pole: the previous pointer resolves to
  \<open>(10/13, 24/13, 0)\<close>, the pointer to \<open>(- 10/13, 24/13, 0)\<close>.
\<close>

definition swipeFrame :: frame where
  "swipeFrame =
     idleFrame\<lparr> pointer := Some (Pointer 400 650), lastPointer := Some (Pointer 900 650),
                lastPointerEvent := True \<rparr>"

text \<open>A frame after the first pointer event, the pointer resting on \<open>(2, 0, 0)\<close>.\<close>

definition equatorFrame :: frame where
  "equatorFrame = idleFrame\<lparr> pointer := Some (Pointer 1300 650), lastPointerEvent := True \<rparr>"

text \<open>
  A frame after the first pointer event, the pointer resting near the north pole: it
  resolves to \<open>(14/25, 48/25, 0)\<close>, at distance \<open>sqrt 0.32\<close> from the pole.
\<close>

definition pressFrame :: frame where
  "pressFrame = idleFrame\<lparr> pointer := Some (Pointer 832 650), lastPointerEvent := True \<rparr>"

text \<open>Two rays for a camera at \<open>(0, 5, 0)\<close>: one hits the sphere of radius 2, one misses it.\<close>

definition hitRay :: ray where
  "hitRay = Ray (Vec3 0 5 0) (Vec3 0 (- 1) 0)"

definition missRay :: ray where
  "missRay = Ray (Vec3 0 5 0) (Vec3 1 0 0)"

section \<open>Properties of the construction\<close>

subsection \<open>Flat arrays built by pushing\<close>

lemma concat3_length:
  assumes "\<And>i. length (f i) = 3"
  shows "length (concat (map f [0..<n])) = 3 * n"
  using assms by (induction n) simp_all

lemma concat3_nth:
  assumes "\<And>i. length (f i) = 3" "i < n" "k < 3"
  shows "concat (map f [0..<n]) ! (i * 3 + k) = f i ! k"
  using assms(2)
proof (induction n)
  case 0
  then show ?case by simp
next
  case (Suc n)
  have len: "length (concat (map f [0..<n])) = 3 * n"
    using assms(1) by (rule concat3_length)
  show ?case
  proof (cases "i < n")
    case True
    then have "i * 3 + k < 3 * n" using assms(3) by arith
    then show ?thesis using Suc.IH True len by (simp add: nth_append)
  next
    case False
    then have "i = n" using Suc.prems by arith
    then show ?thesis using len by (simp add: nth_append mult.commute)
  qed
qed

lemma concat1_replicate: "concat (map (\<lambda>_. [c]) [0..<n]) = replicate n c"
  by (induction n) (simp_all add: replicate_append_same)

lemma concat3_zero_nth:
  "j < 3 * n \<Longrightarrow> concat (map (\<lambda>_. [0, 0, 0::real]) [0..<n]) ! j = 0"
proof (induction n)
  case 0
  then show ?case by simp
next
  case (Suc n)
  have len: "length (concat (map (\<lambda>_. [0, 0, 0::real]) [0..<n])) = 3 * n"
    by (rule concat3_length) simp
  show ?case
  proof (cases "j < 3 * n")
    case True
    then show ?thesis using Suc.IH len by (simp add: nth_append)
  next
    case False
    then have "j - 3 * n < 3" using Suc.prems by arith
    then have "[0, 0, 0::real] ! (j - 3 * n) = 0"
      by (cases "j - 3 * n"; simp add: nth_Cons split: nat.splits)
    then show ?thesis using False len by (simp add: nth_append)
  qed
qed

text \<open>The coordinates pushed for index i.\<close>

lemma pushParticle_Inr:
  assumes "fibonacciPoint (DOT_COUNT ps) i = Inr p"
  shows "pushParticle ps i =
     Inr (ps\<lparr> positions := positions ps @ [vx p * RADIUS ps, vy p * RADIUS ps, vz p * RADIUS ps],
              originalPositions := originalPositions ps @ [vx p * RADIUS ps, vy p * RADIUS ps, vz p * RADIUS ps],
              morphTargets := morphTargets ps @ [vx p * RADIUS ps, vy p * RADIUS ps, vz p * RADIUS ps],
              spreadOffsets := spreadOffsets ps @ [0, 0, 0],
              spreadTimers := spreadTimers ps @ [0],
              spreadVels := spreadVels ps @ [0, 0, 0],
              spreadKickT := spreadKickT ps @ [1],
              spreadKickDir := spreadKickDir ps @ [Vec3 0 0 0],
              spreadKickStart := spreadKickStart ps @ [Vec3 0 0 0],
              spreadReturnT := spreadReturnT ps @ [1],
              colors := colors ps @ [1, 1, 1] \<rparr>)"
  using assms by (simp add: pushParticle_def Let_def)

lemma initLoop_closed:
  assumes "\<And>i. i \<in> set js \<Longrightarrow> fibonacciPoint (DOT_COUNT ps) i = Inr (P i)"
  shows "initLoop js ps =
     Inr (ps\<lparr> positions := positions ps @ concat (map (\<lambda>i. [vx (P i) * RADIUS ps, vy (P i) * RADIUS ps, vz (P i) * RADIUS ps]) js),
              originalPositions := originalPositions ps @ concat (map (\<lambda>i. [vx (P i) * RADIUS ps, vy (P i) * RADIUS ps, vz (P i) * RADIUS ps]) js),
              morphTargets := morphTargets ps @ concat (map (\<lambda>i. [vx (P i) * RADIUS ps, vy (P i) * RADIUS ps, vz (P i) * RADIUS ps]) js),
              spreadOffsets := spreadOffsets ps @ concat (map (\<lambda>_. [0, 0, 0]) js),
              spreadTimers := spreadTimers ps @ concat (map (\<lambda>_. [0]) js),
              spreadVels := spreadVels ps @ concat (map (\<lambda>_. [0, 0, 0]) js),
              spreadKickT := spreadKickT ps @ concat (map (\<lambda>_. [1]) js),
              spreadKickDir := spreadKickDir ps @ concat (map (\<lambda>_. [Vec3 0 0 0]) js),
              spreadKickStart := spreadKickStart ps @ concat (map (\<lambda>_. [Vec3 0 0 0]) js),
              spreadReturnT := spreadReturnT ps @ concat (map (\<lambda>_. [1]) js),
              colors := colors ps @ concat (map (\<lambda>_. [1, 1, 1]) js) \<rparr>)"
  using assms
proof (induction js arbitrary: ps)
  case Nil
  then show ?case by simp
next
  case (Cons j js)
  have pj: "fibonacciPoint (DOT_COUNT ps) j = Inr (P j)" using Cons.prems by simp
  show ?case
    apply (simp only: initLoop.simps pushParticle_Inr[OF pj] sum.case)
    apply (subst Cons.IH)
    using Cons.prems apply simp
    apply simp
    done
qed

subsection \<open>The lattice\<close>

lemma fibonacciPoint_Inr:
  assumes "2 \<le> count" "i < count"
  shows "\<exists>y r. fibonacciPoint count i = Inr (Vec3 (cos (2 * pi * frac (real i * 0.618034)) * r) y
             (sin (2 * pi * frac (real i * 0.618034)) * r))
          \<and> y = 1 - 2 * real i / (real count - 1) \<and> r = sqrt (1 - y\<^sup>2) \<and> y\<^sup>2 \<le> 1"
proof -
  let ?y = "1 - real i / (real count - 1) * 2"
  have c: "real count - 1 > 0" using assms by simp
  have q: "0 \<le> real i / (real count - 1)" "real i / (real count - 1) \<le> 1"
    using assms c by (simp_all add: field_simps)
  have y1: "- 1 \<le> ?y" "?y \<le> 1" using q by linarith+
  have ysq: "?y * ?y \<le> 1"
    using y1 by (metis abs_le_iff abs_square_le_1 minus_le_iff power2_eq_square)
  have fr: "frac (real i * 1.618034) = frac (real i * 0.618034)"
  proof -
    have "real i * 1.618034 = real i * 0.618034 + of_int (int i)" by (simp add: algebra_simps)
    then show ?thesis by (simp only: frac_add_of_int_right)
  qed
  show ?thesis
    using c ysq fr
    by (simp add: fibonacciPoint_def js_div_def js_sqrt_def Let_def power2_eq_square mult.commute)
qed

lemma fibonacciPoint_spec:
  assumes "2 \<le> count" "i < count"
  shows "\<exists>p. fibonacciPoint count i = Inr p \<and> (\<forall>r. multiplyScalar p r = spec_lattice_point count r i)
           \<and> vlength p = 1"
proof -
  obtain y r where fp: "fibonacciPoint count i = Inr (Vec3 (cos (2 * pi * frac (real i * 0.618034)) * r) y
             (sin (2 * pi * frac (real i * 0.618034)) * r))"
    and y: "y = 1 - 2 * real i / (real count - 1)" and r: "r = sqrt (1 - y\<^sup>2)" and y1: "y\<^sup>2 \<le> 1"
    using fibonacciPoint_Inr[OF assms] by blast
  let ?t = "2 * pi * frac (real i * 0.618034)"
  have r2: "r\<^sup>2 = 1 - y\<^sup>2" using r y1 by simp
  have "(cos ?t * r)\<^sup>2 + y\<^sup>2 + (sin ?t * r)\<^sup>2 = ((cos ?t)\<^sup>2 + (sin ?t)\<^sup>2) * r\<^sup>2 + y\<^sup>2"
    unfolding power_mult_distrib by (simp only: distrib_right add.commute add.left_commute)
  also have "\<dots> = 1" using r2 by (simp only: sin_cos_squared_add2) simp
  finally have n1: "(cos ?t * r)\<^sup>2 + y\<^sup>2 + (sin ?t * r)\<^sup>2 = 1" .
  have len: "vlength (Vec3 (cos ?t * r) y (sin ?t * r)) = 1"
    unfolding vlength_def dot_def using n1 by (simp add: power2_eq_square)
  have sp: "\<And>R. multiplyScalar (Vec3 (cos ?t * r) y (sin ?t * r)) R = spec_lattice_point count R i"
    by (simp add: spec_lattice_point_def Let_def y r)
  show ?thesis using fp len sp by blast
qed

lemma vlength_multiplyScalar: "vlength (multiplyScalar v s) = vlength v * \<bar>s\<bar>"
proof -
  have "dot (multiplyScalar v s) (multiplyScalar v s) = dot v v * s\<^sup>2"
    by (simp add: dot_def multiplyScalar_def power2_eq_square algebra_simps)
  then show ?thesis by (simp add: vlength_def real_sqrt_mult)
qed

lemma newParticleSphere_closed:
  assumes "2 \<le> n"
  shows "\<exists>P. (\<forall>i<n. fibonacciPoint n i = Inr (P i)) \<and> newParticleSphere n r =
     Inr \<lparr> DOT_COUNT = n, RADIUS = r,
           positions = concat (map (\<lambda>i. [vx (P i) * r, vy (P i) * r, vz (P i) * r]) [0..<n]),
           originalPositions = concat (map (\<lambda>i. [vx (P i) * r, vy (P i) * r, vz (P i) * r]) [0..<n]),
           morphTargets = concat (map (\<lambda>i. [vx (P i) * r, vy (P i) * r, vz (P i) * r]) [0..<n]),
           spreadOffsets = concat (map (\<lambda>_. [0, 0, 0]) [0..<n]),
           spreadTimers = concat (map (\<lambda>_. [0]) [0..<n]),
           spreadVels = concat (map (\<lambda>_. [0, 0, 0]) [0..<n]),
           spreadKickT = concat (map (\<lambda>_. [1]) [0..<n]),
           spreadKickDir = concat (map (\<lambda>_. [Vec3 0 0 0]) [0..<n]),
           spreadKickStart = concat (map (\<lambda>_. [Vec3 0 0 0]) [0..<n]),
           spreadReturnT = concat (map (\<lambda>_. [1]) [0..<n]),
           colors = concat (map (\<lambda>_. [1, 1, 1]) [0..<n]) \<rparr>"
proof -
  define P where "P = (\<lambda>i. projr (fibonacciPoint n i))"
  have P: "fibonacciPoint n i = Inr (P i)" if "i < n" for i
    using fibonacciPoint_spec[OF assms that] by (auto simp: P_def)
  have "newParticleSphere n r = Inr \<lparr> DOT_COUNT = n, RADIUS = r,
           positions = concat (map (\<lambda>i. [vx (P i) * r, vy (P i) * r, vz (P i) * r]) [0..<n]),
           originalPositions = concat (map (\<lambda>i. [vx (P i) * r, vy (P i) * r, vz (P i) * r]) [0..<n]),
           morphTargets = concat (map (\<lambda>i. [vx (P i) * r, vy (P i) * r, vz (P i) * r]) [0..<n]),
           spreadOffsets = concat (map (\<lambda>_. [0, 0, 0]) [0..<n]),
           spreadTimers = concat (map (\<lambda>_. [0]) [0..<n]),
           spreadVels = concat (map (\<lambda>_. [0, 0, 0]) [0..<n]),
           spreadKickT = concat (map (\<lambda>_. [1]) [0..<n]),
           spreadKickDir = concat (map (\<lambda>_. [Vec3 0 0 0]) [0..<n]),
           spreadKickStart = concat (map (\<lambda>_. [Vec3 0 0 0]) [0..<n]),
           spreadReturnT = concat (map (\<lambda>_. [1]) [0..<n]),
           colors = concat (map (\<lambda>_. [1, 1, 1]) [0..<n]) \<rparr>"
    unfolding newParticleSphere_def initParticles_def
    apply (simp only: ParticleSphere.simps)
    apply (subst initLoop_closed[where P = P])
     apply (simp add: P)
    apply simp
    done
  then show ?thesis using P by blast
qed

text \<open>What construction establishes.\<close>

lemma newParticleSphere_facts:
  assumes "2 \<le> n" and new: "newParticleSphere n r = Inr ps"
  shows "DOT_COUNT ps = n" "RADIUS ps = r" "sized ps"
    "\<And>i. i < n \<Longrightarrow> originalPosition ps i = spec_lattice_point n r i"
    "\<And>i. i < n \<Longrightarrow> kickProgress ps i = 1"
    "\<And>i. i < n \<Longrightarrow> returnTimer ps i = 0"
    "\<And>i. i < n \<Longrightarrow> spreadOffset ps i = Vec3 0 0 0"
proof -
  obtain P where P: "\<And>i. i < n \<Longrightarrow> fibonacciPoint n i = Inr (P i)"
    and cl: "newParticleSphere n r =
     Inr \<lparr> DOT_COUNT = n, RADIUS = r,
           positions = concat (map (\<lambda>i. [vx (P i) * r, vy (P i) * r, vz (P i) * r]) [0..<n]),
           originalPositions = concat (map (\<lambda>i. [vx (P i) * r, vy (P i) * r, vz (P i) * r]) [0..<n]),
           morphTargets = concat (map (\<lambda>i. [vx (P i) * r, vy (P i) * r, vz (P i) * r]) [0..<n]),
           spreadOffsets = concat (map (\<lambda>_. [0, 0, 0]) [0..<n]),
           spreadTimers = concat (map (\<lambda>_. [0]) [0..<n]),
           spreadVels = concat (map (\<lambda>_. [0, 0, 0]) [0..<n]),
           spreadKickT = concat (map (\<lambda>_. [1]) [0..<n]),
           spreadKickDir = concat (map (\<lambda>_. [Vec3 0 0 0]) [0..<n]),
           spreadKickStart = concat (map (\<lambda>_. [Vec3 0 0 0]) [0..<n]),
           spreadReturnT = concat (map (\<lambda>_. [1]) [0..<n]),
           colors = concat (map (\<lambda>_. [1, 1, 1]) [0..<n]) \<rparr>"
    using newParticleSphere_closed[OF assms(1), of r] by blast
  let ?c = "\<lambda>i. [vx (P i) * r, vy (P i) * r, vz (P i) * r]"
  have ps: "ps = \<lparr> DOT_COUNT = n, RADIUS = r,
           positions = concat (map ?c [0..<n]),
           originalPositions = concat (map ?c [0..<n]),
           morphTargets = concat (map ?c [0..<n]),
           spreadOffsets = concat (map (\<lambda>_. [0, 0, 0]) [0..<n]),
           spreadTimers = concat (map (\<lambda>_. [0]) [0..<n]),
           spreadVels = concat (map (\<lambda>_. [0, 0, 0]) [0..<n]),
           spreadKickT = concat (map (\<lambda>_. [1]) [0..<n]),
           spreadKickDir = concat (map (\<lambda>_. [Vec3 0 0 0]) [0..<n]),
           spreadKickStart = concat (map (\<lambda>_. [Vec3 0 0 0]) [0..<n]),
           spreadReturnT = concat (map (\<lambda>_. [1]) [0..<n]),
           colors = concat (map (\<lambda>_. [1, 1, 1]) [0..<n]) \<rparr>"
    using new cl by simp
  show "DOT_COUNT ps = n" "RADIUS ps = r" by (simp_all add: ps)
  have l3: "length (concat (map ?c [0..<n])) = 3 * n" by (rule concat3_length) simp
  have z3: "length (concat (map (\<lambda>_. [0, 0, 0::real]) [0..<n])) = 3 * n"
    by (rule concat3_length) simp
  show "sized ps"
    by (simp add: sized_def ps l3 z3 concat1_replicate)
  show "originalPosition ps i = spec_lattice_point n r i" if "i < n" for i
  proof -
    have k: "concat (map ?c [0..<n]) ! (i * 3 + k) = ?c i ! k" if "k < 3" for k
      by (rule concat3_nth) (simp_all add: \<open>i < n\<close> that)
    have "originalPosition ps i = multiplyScalar (P i) r"
      using k[of 0] k[of 1] k[of 2]
      by (simp add: originalPosition_def triple_def ps multiplyScalar_def)
    moreover have "multiplyScalar (P i) r = spec_lattice_point n r i"
      using fibonacciPoint_spec[OF assms(1) that] P[OF that] by auto
    ultimately show ?thesis by simp
  qed
  show "kickProgress ps i = 1" if "i < n" for i
    using that by (simp add: kickProgress_def ps concat1_replicate)
  show "returnTimer ps i = 0" if "i < n" for i
    using that by (simp add: returnTimer_def ps concat1_replicate)
  show "spreadOffset ps i = Vec3 0 0 0" if "i < n" for i
  proof -
    have "i * 3 < 3 * n" "i * 3 + 1 < 3 * n" "i * 3 + 2 < 3 * n" using that by arith+
    then show ?thesis
      by (simp add: spreadOffset_def triple_def ps concat3_zero_nth)
  qed
qed

lemma spec_lattice_point_length:
  assumes "2 \<le> n" "i < n"
  shows "vlength (spec_lattice_point n r i) = \<bar>r\<bar>"
proof -
  obtain p where "\<forall>r. multiplyScalar p r = spec_lattice_point n r i" "vlength p = 1"
    using fibonacciPoint_spec[OF assms] by blast
  then show ?thesis by (metis vlength_multiplyScalar mult_1)
qed

text \<open>
  Claim C3. For every \<open>count \<ge> 2\<close> and \<open>radius > 0\<close> the constructor succeeds and
  stores \<open>count\<close> points; the point of index \<open>i\<close> is the one the specification's
  lattice formula gives (with the fractional golden ratio \<open>0.618034\<close>, which agrees with
  the code's \<open>1.618034\<close> modulo 1), and it lies at distance \<open>radius\<close> from the origin.
\<close>

theorem fibonacci_lattice_on_sphere:
  assumes "2 \<le> count" "0 < radius"
  shows "\<exists>ps. newParticleSphere count radius = Inr ps \<and> DOT_COUNT ps = count \<and>
              length (originalPositions ps) = 3 * count \<and>
              (\<forall>i<count. originalPosition ps i = spec_lattice_point count radius i \<and>
                          vlength (originalPosition ps i) = radius)"
proof -
  obtain ps where new: "newParticleSphere count radius = Inr ps"
    using newParticleSphere_closed[OF assms(1), of radius] by blast
  note f = newParticleSphere_facts[OF assms(1) new]
  have "length (originalPositions ps) = 3 * count" using f(1,3) by (simp add: sized_def)
  moreover have "originalPosition ps i = spec_lattice_point count radius i \<and>
                 vlength (originalPosition ps i) = radius" if "i < count" for i
    using f(4)[OF that] spec_lattice_point_length[OF assms(1) that, of radius] assms(2) by simp
  ultimately show ?thesis using new f(1) by blast
qed

theorem fibonacci_lattice_on_sphere_witness:
  "(2::nat) \<le> 2 \<and> (0::real) < 2 \<and>
   (\<exists>ps. newParticleSphere 2 2 = Inr ps \<and> DOT_COUNT ps = 2 \<and>
              length (originalPositions ps) = 3 * 2 \<and>
              (\<forall>i<2. originalPosition ps i = spec_lattice_point 2 2 i \<and>
                          vlength (originalPosition ps i) = 2))"
  using fibonacci_lattice_on_sphere[of 2 2] by simp

text \<open>
  Claim C4. With \<open>count = 1\<close> and \<open>radius = 1\<close> the constructor does not produce the
  point \<open>(0, 1, 0)\<close>: the quotient \<open>i / (DOT_COUNT - 1)\<close> is \<open>0 / 0\<close>, and the
  coordinates it stores are not numbers.
\<close>

theorem single_point_is_not_a_number: "newParticleSphere 1 1 = Inl NonFinite"
  by (simp add: newParticleSphere_def initParticles_def pushParticle_def fibonacciPoint_def
      js_div_def)

section \<open>Properties of the frame update\<close>

subsection \<open>Iteration over the indices\<close>

lemma fold_upt_pointwise:
  assumes inv: "\<And>j s. I s \<Longrightarrow> I (f j s)"
    and other: "\<And>j s. I s \<Longrightarrow> j \<noteq> i \<Longrightarrow> v (f j s) = v s"
    and self: "\<And>s. I s \<Longrightarrow> v (f i s) = g (v s)"
    and start: "I s"
  shows "I (fold f [0..<n] s) \<and> v (fold f [0..<n] s) = (if i < n then g (v s) else v s)"
proof (induction n)
  case 0
  show ?case using start by simp
next
  case (Suc n)
  show ?case
  proof (cases "i = n")
    case True
    then show ?thesis using Suc inv self by simp
  next
    case False
    then show ?thesis using Suc inv other[of _ n] by (cases "i < n") simp_all
  qed
qed

lemma fold_preserves:
  assumes "\<And>j s. I s \<Longrightarrow> I (f j s)" "I s"
  shows "I (fold f js s)"
  using assms(2) by (induction js arbitrary: s) (simp_all add: assms(1))

subsection \<open>Flat index arithmetic\<close>

lemma triple_index_neq:
  "j \<noteq> i \<Longrightarrow> j * 3 \<noteq> i * 3 \<and> j * 3 \<noteq> i * 3 + 1 \<and> j * 3 \<noteq> i * 3 + 2 \<and>
     j * 3 + 1 \<noteq> i * 3 \<and> j * 3 + 1 \<noteq> i * 3 + 1 \<and> j * 3 + 1 \<noteq> i * 3 + 2 \<and>
     j * 3 + 2 \<noteq> i * 3 \<and> j * 3 + 2 \<noteq> i * 3 + 1 \<and> j * 3 + 2 \<noteq> i * 3 + 2"
  for i j :: nat
  by arith

lemma triple_update_other:
  "j \<noteq> i \<Longrightarrow> triple (xs[j * 3 := a, j * 3 + 1 := b, j * 3 + 2 := c]) i = triple xs i"
  "j \<noteq> i \<Longrightarrow> triple (xs[j * 3 := a, Suc (j * 3) := b, Suc (Suc (j * 3)) := c]) i = triple xs i"
  using triple_index_neq[of j i] by (simp_all add: triple_def)

lemma triple_update_self:
  "i * 3 + 2 < length xs \<Longrightarrow>
     triple (xs[i * 3 := a, i * 3 + 1 := b, i * 3 + 2 := c]) i = Vec3 a b c"
  "i * 3 + 2 < length xs \<Longrightarrow>
     triple (xs[i * 3 := a, Suc (i * 3) := b, Suc (Suc (i * 3)) := c]) i = Vec3 a b c"
  by (simp_all add: triple_def)

lemmas point_defs = dotState_def kickProgress_def returnTimer_def spreadOffset_def
  kickStart_def kickDirection_def

subsection \<open>animateSpreadReturn, point by point\<close>

lemma animateDot_layout: "layout (animateDot i ps) = layout ps"
  by (simp add: animateDot_def layout_def Let_def)

lemma animateDot_sized: "sized ps \<Longrightarrow> sized (animateDot i ps)"
  by (simp add: animateDot_def sized_def Let_def)

lemma animateDot_other: "j \<noteq> i \<Longrightarrow> dotState (animateDot j ps) i = dotState ps i"
  by (simp add: animateDot_def point_defs Let_def triple_update_other)

lemma animateDot_self:
  assumes "sized ps" "i < DOT_COUNT ps"
  shows "dotState (animateDot i ps) i = spec_pointStep (dotState ps i)"
proof -
  have len: "i * 3 + 2 < length (spreadOffsets ps)" "i < length (spreadKickT ps)"
    "i < length (spreadTimers ps)"
    using assms by (simp_all add: sized_def)
  show ?thesis
    using len
    by (simp add: animateDot_def point_defs spec_pointStep_def Let_def triple_update_self
        min_def max_def)
      (simp add: triple_def vadd_def multiplyScalar_def)
qed

lemma animateSpreadReturn_point:
  assumes "sized ps" "i < DOT_COUNT ps"
  shows "dotState (animateSpreadReturn ps) i = spec_pointStep (dotState ps i)"
    and "layout (animateSpreadReturn ps) = layout ps"
    and "sized (animateSpreadReturn ps)"
proof -
  let ?I = "\<lambda>s. sized s \<and> layout s = layout ps"
  have "?I (fold animateDot [0..<DOT_COUNT ps] ps) \<and>
        dotState (fold animateDot [0..<DOT_COUNT ps] ps) i =
          (if i < DOT_COUNT ps then spec_pointStep (dotState ps i) else dotState ps i)"
  proof (rule fold_upt_pointwise[where I = ?I and v = "\<lambda>s. dotState s i"])
    show "?I (animateDot j s)" if "?I s" for j s
      using that by (simp add: animateDot_sized animateDot_layout)
    show "dotState (animateDot j s) i = dotState s i" if "?I s" "j \<noteq> i" for j s
      using that by (simp add: animateDot_other)
    show "dotState (animateDot i s) i = spec_pointStep (dotState s i)" if "?I s" for s
      using that assms(2) by (intro animateDot_self) (simp_all add: layout_def)
    show "?I ps" using assms(1) by simp
  qed
  then show "dotState (animateSpreadReturn ps) i = spec_pointStep (dotState ps i)"
    and "layout (animateSpreadReturn ps) = layout ps"
    and "sized (animateSpreadReturn ps)"
    using assms(2) by (simp_all add: animateSpreadReturn_def)
qed

subsection \<open>The body of the inner loop of spreadDots\<close>

lemma spreadDot_layout:
  "layout (fst (spreadDot pts p lastP cw ic j st)) = layout (fst st)"
  by (cases st) (simp add: spreadDot_def layout_def Let_def)

lemma spreadDot_sized:
  "sized (fst st) \<Longrightarrow> sized (fst (spreadDot pts p lastP cw ic j st))"
  by (cases st) (simp add: spreadDot_def sized_def Let_def)

lemma spreadDot_touched_length:
  "length (snd (snd (spreadDot pts p lastP cw ic j st))) = length (snd (snd st))"
  by (cases st) (simp add: spreadDot_def Let_def)

lemma spreadDot_other:
  assumes "j \<noteq> i"
  shows "dotState (fst (spreadDot pts p lastP cw ic j st)) i = dotState (fst st) i"
    and "snd (snd (spreadDot pts p lastP cw ic j st)) ! i = snd (snd st) ! i"
  using assms
  by (cases st; simp add: spreadDot_def point_defs Let_def triple_update_other)+

lemma spreadDot_skip:
  "kickProgress (fst st) i < 1 \<Longrightarrow> spreadDot pts p lastP cw ic i st = st"
  by (cases st) (simp add: spreadDot_def kickProgress_def)

lemma spreadDot_far:
  assumes "\<not> distToCursor (fst st) pts ic i < cursorRadius (fst st) + 0.18"
  shows "spreadDot pts p lastP cw ic i st = st"
proof -
  have "\<not> distToCursor (fst st) pts ic i < cursorRadius (fst st)"
    using assms by simp
  then show ?thesis
    using assms
    by (cases st)
      (simp add: spreadDot_def distToCursor_def cursorRadius_def originalPosition_def
        triple_def Let_def)
qed

lemma spreadDot_bounded:
  assumes "\<forall>k\<in>set (spreadKickT (fst st)). k \<le> 1" "\<forall>t\<in>set (spreadTimers (fst st)). 0 \<le> t"
  shows "(\<forall>k\<in>set (spreadKickT (fst (spreadDot pts p lastP cw ic j st))). k \<le> 1) \<and>
         (\<forall>t\<in>set (spreadTimers (fst (spreadDot pts p lastP cw ic j st))). 0 \<le> t)"
proof -
  have k: "\<forall>k\<in>set ((spreadKickT (fst st))[j := 0]). k \<le> 1"
    using assms(1) set_update_subset_insert[of "spreadKickT (fst st)" j 0] by auto
  have t: "\<forall>t\<in>set ((spreadTimers (fst st))[j := 0.4]). 0 \<le> t"
    using assms(2) set_update_subset_insert[of "spreadTimers (fst st)" j "0.4"] by auto
  show ?thesis
    using assms k t by (cases st) (simp add: spreadDot_def Let_def)
qed

subsection \<open>What depends on the layout only\<close>

lemma layout_cong:
  assumes "layout ps' = layout ps"
  shows "DOT_COUNT ps' = DOT_COUNT ps" "RADIUS ps' = RADIUS ps"
    "originalPositions ps' = originalPositions ps"
    "cursorRadius ps' = cursorRadius ps"
    "distToCursor ps' pts c i = distToCursor ps pts c i"
    "cursorWorldOf ps' cam w h p = cursorWorldOf ps cam w h p"
    "prevCursorWorldOf ps' cam w h lastP lastEv = prevCursorWorldOf ps cam w h lastP lastEv"
    "noProximity ps' fr i = noProximity ps fr i"
proof -
  show l: "DOT_COUNT ps' = DOT_COUNT ps" "RADIUS ps' = RADIUS ps"
    "originalPositions ps' = originalPositions ps"
    using assms by (simp_all add: layout_def)
  show c: "cursorRadius ps' = cursorRadius ps" using l by (simp add: cursorRadius_def)
  show d: "distToCursor ps' pts c i = distToCursor ps pts c i" for pts c i
    using l by (simp add: distToCursor_def originalPosition_def)
  show w: "cursorWorldOf ps' cam w h p = cursorWorldOf ps cam w h p" for cam w h p
    using l by (simp add: cursorWorldOf_def)
  show v: "prevCursorWorldOf ps' cam w h lastP lastEv = prevCursorWorldOf ps cam w h lastP lastEv"
    for cam w h lastP lastEv
    by (simp add: prevCursorWorldOf_def w split: option.splits)
  show "noProximity ps' fr i = noProximity ps fr i"
    by (simp add: noProximity_def c d w v split: option.splits)
qed

subsection \<open>The steps of spreadDots\<close>

lemma spreadStepLoop_general:
  "layout (fst (spreadStepLoop pts p lastP cw ic st)) = layout (fst st)"
  "sized (fst st) \<Longrightarrow> sized (fst (spreadStepLoop pts p lastP cw ic st))"
  "length (snd (snd (spreadStepLoop pts p lastP cw ic st))) = length (snd st)"
proof -
  let ?D = "spreadDot pts p lastP cw ic"
  let ?s0 = "(fst st, 0::nat, snd st)"
  have "layout (fst (fold ?D js ?s0)) = layout (fst ?s0)" for js
    by (rule fold_preserves[where I = "\<lambda>s. layout (fst s) = layout (fst ?s0)"])
      (simp_all add: spreadDot_layout)
  then show "layout (fst (spreadStepLoop pts p lastP cw ic st)) = layout (fst st)"
    by (simp add: spreadStepLoop_def)
  have "sized (fst (fold ?D js ?s0))" if "sized (fst st)" for js
    by (rule fold_preserves[where I = "\<lambda>s. sized (fst s)"])
      (simp_all add: spreadDot_sized that)
  then show "sized (fst st) \<Longrightarrow> sized (fst (spreadStepLoop pts p lastP cw ic st))"
    by (simp add: spreadStepLoop_def)
  have "length (snd (snd (fold ?D js ?s0))) = length (snd (snd ?s0))" for js
    by (rule fold_preserves[where I = "\<lambda>s. length (snd (snd s)) = length (snd (snd ?s0))"])
      (simp_all add: spreadDot_touched_length)
  then show "length (snd (snd (spreadStepLoop pts p lastP cw ic st))) = length (snd st)"
    by (simp add: spreadStepLoop_def)
qed

lemma spreadStepLoop_bounded:
  assumes "\<forall>k\<in>set (spreadKickT (fst st)). k \<le> 1" "\<forall>t\<in>set (spreadTimers (fst st)). 0 \<le> t"
  shows "(\<forall>k\<in>set (spreadKickT (fst (spreadStepLoop pts p lastP cw ic st))). k \<le> 1) \<and>
         (\<forall>t\<in>set (spreadTimers (fst (spreadStepLoop pts p lastP cw ic st))). 0 \<le> t)"
  unfolding spreadStepLoop_def
proof (rule fold_preserves[where I = "\<lambda>s. (\<forall>k\<in>set (spreadKickT (fst s)). k \<le> 1) \<and>
         (\<forall>t\<in>set (spreadTimers (fst s)). 0 \<le> t)"])
  show "(\<forall>k\<in>set (spreadKickT (fst (spreadDot pts p lastP cw ic j s))). k \<le> 1) \<and>
        (\<forall>t\<in>set (spreadTimers (fst (spreadDot pts p lastP cw ic j s))). 0 \<le> t)"
    if "(\<forall>k\<in>set (spreadKickT (fst s)). k \<le> 1) \<and> (\<forall>t\<in>set (spreadTimers (fst s)). 0 \<le> t)"
    for j s
    using that by (intro spreadDot_bounded) simp_all
  show "(\<forall>k\<in>set (spreadKickT (fst (fst st, 0::nat, snd st))). k \<le> 1) \<and>
        (\<forall>t\<in>set (spreadTimers (fst (fst st, 0::nat, snd st))). 0 \<le> t)"
    using assms by simp
qed

lemma spreadStepLoop_quiet:
  assumes "kickProgress (fst st) i < 1 \<or>
           \<not> distToCursor (fst st) pts ic i < cursorRadius (fst st) + 0.18"
  shows "dotState (fst (spreadStepLoop pts p lastP cw ic st)) i = dotState (fst st) i"
    and "snd (snd (spreadStepLoop pts p lastP cw ic st)) ! i = snd st ! i"
proof -
  let ?D = "spreadDot pts p lastP cw ic"
  let ?s0 = "(fst st, 0::nat, snd st)"
  let ?I = "\<lambda>s. layout (fst s) = layout (fst st) \<and> dotState (fst s) i = dotState (fst st) i \<and>
                 snd (snd s) ! i = snd st ! i"
  have step: "?I (?D j s)" if I: "?I s" for j s
  proof (cases "j = i")
    case False
    then show ?thesis using I by (simp add: spreadDot_layout spreadDot_other)
  next
    case True
    have kp: "kickProgress (fst s) i = kickProgress (fst st) i"
      using I by (simp add: dotState_def)
    have "kickProgress (fst s) i < 1 \<or>
          \<not> distToCursor (fst s) pts ic i < cursorRadius (fst s) + 0.18"
      using assms I kp by (simp add: layout_cong(4,5)[of "fst s" "fst st"])
    then have "?D i s = s" using spreadDot_skip spreadDot_far by blast
    then show ?thesis using I True by simp
  qed
  have "?I (fold ?D js ?s0)" for js
    by (rule fold_preserves[where I = ?I]) (simp_all add: step)
  then show "dotState (fst (spreadStepLoop pts p lastP cw ic st)) i = dotState (fst st) i"
    and "snd (snd (spreadStepLoop pts p lastP cw ic st)) ! i = snd st ! i"
    by (simp_all add: spreadStepLoop_def)
qed

lemma spreadStep_fst_snd:
  "fst (spreadStep pts p lastP prev cw s st) =
     fst (spreadStepLoop pts p lastP cw (interpCursorAt prev cw s) st)"
  "snd (spreadStep pts p lastP prev cw s st) =
     snd (snd (spreadStepLoop pts p lastP cw (interpCursorAt prev cw s) st))"
  by (simp_all add: spreadStep_def split: prod.splits)

lemma spreadStep_general:
  "layout (fst (spreadStep pts p lastP prev cw s st)) = layout (fst st)"
  "sized (fst st) \<Longrightarrow> sized (fst (spreadStep pts p lastP prev cw s st))"
  "length (snd (spreadStep pts p lastP prev cw s st)) = length (snd st)"
  by (simp_all add: spreadStep_fst_snd spreadStepLoop_general)

lemma spreadStep_bounded:
  assumes "\<forall>k\<in>set (spreadKickT (fst st)). k \<le> 1" "\<forall>t\<in>set (spreadTimers (fst st)). 0 \<le> t"
  shows "(\<forall>k\<in>set (spreadKickT (fst (spreadStep pts p lastP prev cw s st))). k \<le> 1) \<and>
         (\<forall>t\<in>set (spreadTimers (fst (spreadStep pts p lastP prev cw s st))). 0 \<le> t)"
  using spreadStepLoop_bounded[OF assms] by (simp add: spreadStep_fst_snd)

lemma spreadSteps_general:
  "layout (fst (spreadSteps ps p lastP lastEv pts cam w h)) = layout ps"
  "sized ps \<Longrightarrow> sized (fst (spreadSteps ps p lastP lastEv pts cam w h))"
  "length (snd (spreadSteps ps p lastP lastEv pts cam w h)) = DOT_COUNT ps"
proof -
  let ?S = "spreadStep pts p lastP (prevCursorWorldOf ps cam w h lastP lastEv)
              (cursorWorldOf ps cam w h p)"
  let ?s0 = "(ps, replicate (DOT_COUNT ps) False)"
  have "layout (fst (fold ?S js ?s0)) = layout (fst ?s0)" for js
    by (rule fold_preserves[where I = "\<lambda>s. layout (fst s) = layout (fst ?s0)"])
      (simp_all add: spreadStep_general)
  then show "layout (fst (spreadSteps ps p lastP lastEv pts cam w h)) = layout ps"
    by (simp add: spreadSteps_def)
  have "sized (fst (fold ?S js ?s0))" if "sized ps" for js
    by (rule fold_preserves[where I = "\<lambda>s. sized (fst s)"])
      (simp_all add: spreadStep_general that)
  then show "sized ps \<Longrightarrow> sized (fst (spreadSteps ps p lastP lastEv pts cam w h))"
    by (simp add: spreadSteps_def)
  have "length (snd (fold ?S js ?s0)) = length (snd ?s0)" for js
    by (rule fold_preserves[where I = "\<lambda>s. length (snd s) = length (snd ?s0)"])
      (simp_all add: spreadStep_general)
  then show "length (snd (spreadSteps ps p lastP lastEv pts cam w h)) = DOT_COUNT ps"
    by (simp add: spreadSteps_def)
qed

lemma spreadSteps_bounded:
  assumes "\<forall>k\<in>set (spreadKickT ps). k \<le> 1" "\<forall>t\<in>set (spreadTimers ps). 0 \<le> t"
  shows "(\<forall>k\<in>set (spreadKickT (fst (spreadSteps ps p lastP lastEv pts cam w h))). k \<le> 1) \<and>
         (\<forall>t\<in>set (spreadTimers (fst (spreadSteps ps p lastP lastEv pts cam w h))). 0 \<le> t)"
  unfolding spreadSteps_def Let_def
proof (rule fold_preserves[where I = "\<lambda>s. (\<forall>k\<in>set (spreadKickT (fst s)). k \<le> 1) \<and>
         (\<forall>t\<in>set (spreadTimers (fst s)). 0 \<le> t)"])
  show "(\<forall>k\<in>set (spreadKickT (fst (spreadStep pts p lastP prev cw j s))). k \<le> 1) \<and>
        (\<forall>t\<in>set (spreadTimers (fst (spreadStep pts p lastP prev cw j s))). 0 \<le> t)"
    if "(\<forall>k\<in>set (spreadKickT (fst s)). k \<le> 1) \<and> (\<forall>t\<in>set (spreadTimers (fst s)). 0 \<le> t)"
    for j s prev cw
    using that by (intro spreadStep_bounded) simp_all
  show "(\<forall>k\<in>set (spreadKickT (fst (ps, replicate (DOT_COUNT ps) False))). k \<le> 1) \<and>
        (\<forall>t\<in>set (spreadTimers (fst (ps, replicate (DOT_COUNT ps) False))). 0 \<le> t)"
    using assms by simp
qed

lemma fold_preserves_on:
  assumes "\<And>j s. j \<in> set js \<Longrightarrow> I s \<Longrightarrow> I (f j s)" "I s"
  shows "I (fold f js s)"
  using assms by (induction js arbitrary: s) simp_all

lemma spreadSteps_quiet:
  assumes "i < DOT_COUNT ps"
    and "kickProgress ps i < 1 \<or>
      (\<forall>s<13. \<not> distToCursor ps pts
          (interpCursorAt (prevCursorWorldOf ps cam w h lastP lastEv)
             (cursorWorldOf ps cam w h p) s) i < cursorRadius ps + 0.18)"
  shows "dotState (fst (spreadSteps ps p lastP lastEv pts cam w h)) i = dotState ps i"
    and "\<not> snd (spreadSteps ps p lastP lastEv pts cam w h) ! i"
proof -
  let ?prev = "prevCursorWorldOf ps cam w h lastP lastEv"
  let ?cw = "cursorWorldOf ps cam w h p"
  let ?S = "spreadStep pts p lastP ?prev ?cw"
  let ?s0 = "(ps, replicate (DOT_COUNT ps) False)"
  let ?I = "\<lambda>s. layout (fst s) = layout ps \<and> dotState (fst s) i = dotState ps i \<and> \<not> snd s ! i"
  have step: "?I (?S s st)" if "s \<in> set [0..<13]" and I: "?I st" for s st
  proof -
    have kp: "kickProgress (fst st) i = kickProgress ps i"
      using I by (simp add: dotState_def)
    have "s < 13" using that(1) by simp
    then have q: "kickProgress (fst st) i < 1 \<or>
          \<not> distToCursor (fst st) pts (interpCursorAt ?prev ?cw s) i < cursorRadius (fst st) + 0.18"
      using assms(2) I kp by (auto simp: layout_cong(4,5)[of "fst st" ps])
    show ?thesis
      using I spreadStepLoop_quiet[OF q]
      by (simp add: spreadStep_fst_snd spreadStepLoop_general)
  qed
  have "?I (fold ?S [0..<13] ?s0)"
    by (rule fold_preserves_on[where I = ?I]) (simp_all add: step assms(1))
  then show "dotState (fst (spreadSteps ps p lastP lastEv pts cam w h)) i = dotState ps i"
    and "\<not> snd (spreadSteps ps p lastP lastEv pts cam w h) ! i"
    by (simp_all add: spreadSteps_def)
qed

subsection \<open>The reset of untouched points\<close>

lemma resetUntouched_layout: "layout (resetUntouched t j ps) = layout ps"
  by (simp add: resetUntouched_def layout_def)

lemma resetUntouched_sized: "sized ps \<Longrightarrow> sized (resetUntouched t j ps)"
  by (simp add: resetUntouched_def sized_def)

lemma resetUntouched_other: "j \<noteq> i \<Longrightarrow> dotState (resetUntouched t j ps) i = dotState ps i"
  by (simp add: resetUntouched_def point_defs)

lemma resetUntouched_self:
  assumes "sized ps" "i < DOT_COUNT ps"
  shows "dotState (resetUntouched t i ps) i =
     (case dotState ps i of (kt, tm, off, ks, kd) \<Rightarrow> (kt, if t ! i then tm else 0, off, ks, kd))"
  using assms by (simp add: resetUntouched_def point_defs sized_def)

lemma resetUntouched_bounded:
  assumes "\<forall>k\<in>set (spreadKickT ps). k \<le> 1" "\<forall>t\<in>set (spreadTimers ps). 0 \<le> t"
  shows "(\<forall>k\<in>set (spreadKickT (resetUntouched t j ps)). k \<le> 1) \<and>
         (\<forall>t\<in>set (spreadTimers (resetUntouched t j ps)). 0 \<le> t)"
  using assms set_update_subset_insert[of "spreadTimers ps" j 0]
  by (auto simp: resetUntouched_def)

lemma spreadDots_point:
  assumes "sized ps" "i < DOT_COUNT ps"
  shows "dotState (spreadDots ps p lastP lastEv pts cam w h) i =
     (case dotState (fst (spreadSteps ps p lastP lastEv pts cam w h)) i of
        (kt, tm, off, ks, kd) \<Rightarrow>
          (kt, if snd (spreadSteps ps p lastP lastEv pts cam w h) ! i then tm else 0,
           off, ks, kd))"
    and "layout (spreadDots ps p lastP lastEv pts cam w h) = layout ps"
    and "sized (spreadDots ps p lastP lastEv pts cam w h)"
proof -
  let ?st = "spreadSteps ps p lastP lastEv pts cam w h"
  let ?R = "resetUntouched (snd ?st)"
  let ?g = "\<lambda>d. case d of (kt, tm, off, ks, kd) \<Rightarrow>
              (kt, if snd ?st ! i then tm else (0::real), off, ks, kd)"
  let ?I = "\<lambda>s. sized s \<and> layout s = layout ps"
  have n: "DOT_COUNT (fst ?st) = DOT_COUNT ps"
    using spreadSteps_general(1)[of ps p lastP lastEv pts cam w h] by (simp add: layout_def)
  have "?I (fold ?R [0..<DOT_COUNT ps] (fst ?st)) \<and>
        dotState (fold ?R [0..<DOT_COUNT ps] (fst ?st)) i =
          (if i < DOT_COUNT ps then ?g (dotState (fst ?st) i) else dotState (fst ?st) i)"
  proof (rule fold_upt_pointwise[where I = ?I and v = "\<lambda>s. dotState s i"])
    show "?I (?R j s)" if "?I s" for j s
      using that by (simp add: resetUntouched_sized resetUntouched_layout)
    show "dotState (?R j s) i = dotState s i" if "?I s" "j \<noteq> i" for j s
      using that by (simp add: resetUntouched_other)
    show "dotState (?R i s) i = ?g (dotState s i)" if "?I s" for s
      using that assms(2) by (subst resetUntouched_self) (simp_all add: layout_def)
    show "?I (fst ?st)" using assms(1) by (simp add: spreadSteps_general)
  qed
  then show "dotState (spreadDots ps p lastP lastEv pts cam w h) i =
     (case dotState (fst ?st) i of
        (kt, tm, off, ks, kd) \<Rightarrow> (kt, if snd ?st ! i then tm else 0, off, ks, kd))"
    and "layout (spreadDots ps p lastP lastEv pts cam w h) = layout ps"
    and "sized (spreadDots ps p lastP lastEv pts cam w h)"
    using assms(2) n by (simp_all add: spreadDots_def Let_def split: prod.splits)
qed

lemma spreadDots_bounded:
  assumes "\<forall>k\<in>set (spreadKickT ps). k \<le> 1" "\<forall>t\<in>set (spreadTimers ps). 0 \<le> t"
  shows "(\<forall>k\<in>set (spreadKickT (spreadDots ps p lastP lastEv pts cam w h)). k \<le> 1) \<and>
         (\<forall>t\<in>set (spreadTimers (spreadDots ps p lastP lastEv pts cam w h)). 0 \<le> t)"
  unfolding spreadDots_def Let_def
proof (rule fold_preserves[where I = "\<lambda>s. (\<forall>k\<in>set (spreadKickT s). k \<le> 1) \<and>
         (\<forall>t\<in>set (spreadTimers s). 0 \<le> t)"])
  show "(\<forall>k\<in>set (spreadKickT (resetUntouched t j s)). k \<le> 1) \<and>
        (\<forall>t\<in>set (spreadTimers (resetUntouched t j s)). 0 \<le> t)"
    if "(\<forall>k\<in>set (spreadKickT s). k \<le> 1) \<and> (\<forall>t\<in>set (spreadTimers s). 0 \<le> t)"
    for j s t
    using that by (intro resetUntouched_bounded) simp_all
  show "(\<forall>k\<in>set (spreadKickT (fst (spreadSteps ps p lastP lastEv pts cam w h))). k \<le> 1) \<and>
        (\<forall>t\<in>set (spreadTimers (fst (spreadSteps ps p lastP lastEv pts cam w h))). 0 \<le> t)"
    by (rule spreadSteps_bounded[OF assms])
qed

lemma animateSpreadReturn_general:
  "layout (animateSpreadReturn ps) = layout ps"
  "sized ps \<Longrightarrow> sized (animateSpreadReturn ps)"
proof -
  have "layout (fold animateDot js ps) = layout ps" for js
    by (rule fold_preserves[where I = "\<lambda>s. layout s = layout ps"])
      (simp_all add: animateDot_layout)
  then show "layout (animateSpreadReturn ps) = layout ps"
    by (simp add: animateSpreadReturn_def)
  have "sized (fold animateDot js ps)" if "sized ps" for js
    by (rule fold_preserves[where I = sized]) (simp_all add: animateDot_sized that)
  then show "sized ps \<Longrightarrow> sized (animateSpreadReturn ps)"
    by (simp add: animateSpreadReturn_def)
qed

lemma in_set_update: "x \<in> set (xs[j := v]) \<Longrightarrow> x = v \<or> x \<in> set xs"
  using set_update_subset_insert[of xs j v] by auto

lemma animateDot_bounded:
  assumes "\<forall>k\<in>set (spreadKickT ps). k \<le> 1" "\<forall>t\<in>set (spreadTimers ps). 0 \<le> t"
  shows "(\<forall>k\<in>set (spreadKickT (animateDot j ps)). k \<le> 1) \<and>
         (\<forall>t\<in>set (spreadTimers (animateDot j ps)). 0 \<le> t)"
proof
  show "\<forall>k\<in>set (spreadKickT (animateDot j ps)). k \<le> 1"
    using assms(1)
    by (auto simp: animateDot_def Let_def dest!: in_set_update split: if_splits)
  show "\<forall>t\<in>set (spreadTimers (animateDot j ps)). 0 \<le> t"
    using assms(2)
    by (auto simp: animateDot_def Let_def dest!: in_set_update split: if_splits)
qed

lemma animateSpreadReturn_bounded:
  assumes "\<forall>k\<in>set (spreadKickT ps). k \<le> 1" "\<forall>t\<in>set (spreadTimers ps). 0 \<le> t"
  shows "(\<forall>k\<in>set (spreadKickT (animateSpreadReturn ps)). k \<le> 1) \<and>
         (\<forall>t\<in>set (spreadTimers (animateSpreadReturn ps)). 0 \<le> t)"
  unfolding animateSpreadReturn_def
proof (rule fold_preserves[where I = "\<lambda>s. (\<forall>k\<in>set (spreadKickT s). k \<le> 1) \<and>
         (\<forall>t\<in>set (spreadTimers s). 0 \<le> t)"])
  show "(\<forall>k\<in>set (spreadKickT (animateDot j s)). k \<le> 1) \<and>
        (\<forall>t\<in>set (spreadTimers (animateDot j s)). 0 \<le> t)"
    if "(\<forall>k\<in>set (spreadKickT s). k \<le> 1) \<and> (\<forall>t\<in>set (spreadTimers s). 0 \<le> t)" for j s
    using that by (intro animateDot_bounded) simp_all
  show "(\<forall>k\<in>set (spreadKickT ps). k \<le> 1) \<and> (\<forall>t\<in>set (spreadTimers ps). 0 \<le> t)"
    using assms by simp
qed

text \<open>Of the arrays, animateSpreadReturn writes to three only.\<close>

lemma animateSpreadReturn_writes:
  "animateSpreadReturn ps =
     ps\<lparr> spreadOffsets := spreadOffsets (animateSpreadReturn ps),
         spreadTimers := spreadTimers (animateSpreadReturn ps),
         spreadKickT := spreadKickT (animateSpreadReturn ps) \<rparr>"
proof -
  let ?I = "\<lambda>s. s = ps\<lparr> spreadOffsets := spreadOffsets s, spreadTimers := spreadTimers s,
                         spreadKickT := spreadKickT s \<rparr>"
  have step: "?I (animateDot j s)" if Is: "?I s" for j s
  proof -
    obtain o1 t1 k1 where s: "s = ps\<lparr> spreadOffsets := o1, spreadTimers := t1, spreadKickT := k1 \<rparr>"
      using Is by blast
    show ?thesis unfolding s by (simp add: animateDot_def Let_def)
  qed
  have "?I (fold animateDot js ps)" for js
  proof (rule fold_preserves[where I = ?I])
    show "?I (animateDot j s)" if "?I s" for j s using that by (rule step)
    show "?I ps" by simp
  qed
  then show ?thesis unfolding animateSpreadReturn_def .
qed

lemma spreadDots_general:
  "layout (spreadDots ps p lastP lastEv pts cam w h) = layout ps"
  "sized ps \<Longrightarrow> sized (spreadDots ps p lastP lastEv pts cam w h)"
proof -
  let ?st = "spreadSteps ps p lastP lastEv pts cam w h"
  have "layout (fold (resetUntouched t) js (fst ?st)) = layout ps" for js t
    by (rule fold_preserves[where I = "\<lambda>s. layout s = layout ps"])
      (simp_all add: resetUntouched_layout spreadSteps_general)
  then show "layout (spreadDots ps p lastP lastEv pts cam w h) = layout ps"
    by (simp add: spreadDots_def Let_def)
  have "sized (fold (resetUntouched t) js (fst ?st))" if "sized ps" for js t
    by (rule fold_preserves[where I = sized])
      (simp_all add: resetUntouched_sized spreadSteps_general that)
  then show "sized ps \<Longrightarrow> sized (spreadDots ps p lastP lastEv pts cam w h)"
    by (simp add: spreadDots_def Let_def)
qed

subsection \<open>update\<close>

lemma update_pass:
  assumes "pointer fr = Some p" "points fr = Some pts" "camera fr = Some cam"
  shows "particleSphere (fst (update svc fr)) =
     spreadDots (animateSpreadReturn (particleSphere svc)) p (lastPointer fr)
       (lastPointerEvent fr) pts cam (innerWidth fr) (innerHeight fr)"
  using assms by (simp add: update_def Let_def)

lemma update_nopass:
  assumes "\<not> pointerPass fr"
  shows "particleSphere (fst (update svc fr)) = animateSpreadReturn (particleSphere svc)"
  using assms by (auto simp: update_def pointerPass_def Let_def split: option.splits)

lemma update_service:
  "morphLerp (fst (update svc fr)) = morphLerp svc + (morphTarget svc - morphLerp svc) * 0.05"
  "morphTarget (fst (update svc fr)) = morphTarget svc"
  "enableMorph (fst (update svc fr)) = enableMorph svc"
  by (simp_all add: update_def Let_def split: option.splits)

lemma pointerPass_cases:
  obtains (pass) p pts cam where "pointer fr = Some p" "points fr = Some pts"
      "camera fr = Some cam" "pointerPass fr"
  | (nopass) "\<not> pointerPass fr"
  by (cases "pointer fr"; cases "points fr"; cases "camera fr") (auto simp: pointerPass_def)

lemma update_general:
  "layout (particleSphere (fst (update svc fr))) = layout (particleSphere svc)"
  "sized (particleSphere svc) \<Longrightarrow> sized (particleSphere (fst (update svc fr)))"
proof -
  show "layout (particleSphere (fst (update svc fr))) = layout (particleSphere svc)"
    by (cases fr rule: pointerPass_cases)
      (simp_all add: update_pass update_nopass spreadDots_general animateSpreadReturn_general)
  show "sized (particleSphere (fst (update svc fr)))" if "sized (particleSphere svc)"
    using that
    by (cases fr rule: pointerPass_cases)
      (simp_all add: update_pass update_nopass spreadDots_general animateSpreadReturn_general)
qed

lemma update_bounded:
  assumes "\<forall>k\<in>set (spreadKickT (particleSphere svc)). k \<le> 1"
    "\<forall>t\<in>set (spreadTimers (particleSphere svc)). 0 \<le> t"
  shows "(\<forall>k\<in>set (spreadKickT (particleSphere (fst (update svc fr)))). k \<le> 1) \<and>
         (\<forall>t\<in>set (spreadTimers (particleSphere (fst (update svc fr)))). 0 \<le> t)"
proof (cases fr rule: pointerPass_cases)
  case (pass p pts cam)
  have a: "(\<forall>k\<in>set (spreadKickT (animateSpreadReturn (particleSphere svc))). k \<le> 1)"
    "(\<forall>t\<in>set (spreadTimers (animateSpreadReturn (particleSphere svc))). 0 \<le> t)"
    using animateSpreadReturn_bounded[OF assms] by simp_all
  show ?thesis
    unfolding update_pass[OF pass(1,2,3)] by (rule spreadDots_bounded[OF a])
next
  case nopass
  then show ?thesis using animateSpreadReturn_bounded[OF assms] by (simp add: update_nopass)
qed

lemma update_quiet:
  assumes sz: "sized (particleSphere svc)" and i: "i < DOT_COUNT (particleSphere svc)"
    and q: "noProximity (particleSphere svc) fr i \<or> kickProgress (particleSphere svc) i + 0.035 < 1"
  shows "dotState (particleSphere (fst (update svc fr))) i =
           spec_quietFrame (pointerPass fr) (dotState (particleSphere svc) i)"
proof (cases fr rule: pointerPass_cases)
  case nopass
  then show ?thesis
    using animateSpreadReturn_point[OF sz i]
    by (simp add: update_nopass spec_quietFrame_def split: prod.splits)
next
  case (pass p pts cam)
  let ?ps = "particleSphere svc"
  let ?ps1 = "animateSpreadReturn ?ps"
  have lay: "layout ?ps1 = layout ?ps" by (rule animateSpreadReturn_general)
  have sz1: "sized ?ps1" using sz by (rule animateSpreadReturn_general)
  have i1: "i < DOT_COUNT ?ps1" using i layout_cong(1)[OF lay] by simp
  have d1: "dotState ?ps1 i = spec_pointStep (dotState ?ps i)"
    by (rule animateSpreadReturn_point[OF sz i])
  let ?w = "innerWidth fr" and ?h = "innerHeight fr"
  have quiet: "kickProgress ?ps1 i < 1 \<or>
      (\<forall>s<13. \<not> distToCursor ?ps1 pts
          (interpCursorAt (prevCursorWorldOf ?ps1 cam ?w ?h (lastPointer fr) (lastPointerEvent fr))
             (cursorWorldOf ?ps1 cam ?w ?h p) s) i < cursorRadius ?ps1 + 0.18)"
    using q
  proof
    assume "noProximity ?ps fr i"
    then have "\<forall>s<13. \<not> distToCursor ?ps pts
          (interpCursorAt (prevCursorWorldOf ?ps cam ?w ?h (lastPointer fr) (lastPointerEvent fr))
             (cursorWorldOf ?ps cam ?w ?h p) s) i < cursorRadius ?ps + 0.18"
      using pass by (simp add: noProximity_def list_all_iff Let_def)
    then show ?thesis by (simp add: layout_cong[OF lay])
  next
    assume k: "kickProgress ?ps i + 0.035 < 1"
    have "kickProgress ?ps1 i = fst (dotState ?ps1 i)" by (simp add: dotState_def)
    also have "\<dots> = kickProgress ?ps i + 0.035"
      using k unfolding d1 by (simp add: spec_pointStep_def dotState_def)
    finally show ?thesis using k by simp
  qed
  note st = spreadSteps_quiet[OF i1 quiet]
  show ?thesis
    unfolding update_pass[OF pass(1,2,3)]
    using spreadDots_point(1)[OF sz1 i1, of p "lastPointer fr" "lastPointerEvent fr" pts cam ?w ?h]
      st d1 pass(4)
    by (simp add: spec_quietFrame_def split: prod.splits)
qed

subsection \<open>Sequences of frames\<close>

lemma runFrames_Nil: "runFrames svc [] = svc"
  by (simp add: runFrames_def)

lemma runFrames_Cons: "runFrames svc (fr # frs) = runFrames (fst (update svc fr)) frs"
  by (simp add: runFrames_def)

lemma runFrames_general:
  "layout (particleSphere (runFrames svc frs)) = layout (particleSphere svc)"
  "sized (particleSphere svc) \<Longrightarrow> sized (particleSphere (runFrames svc frs))"
proof -
  show "layout (particleSphere (runFrames svc frs)) = layout (particleSphere svc)"
    by (induction frs arbitrary: svc) (simp_all add: runFrames_Nil runFrames_Cons update_general)
  show "sized (particleSphere svc) \<Longrightarrow> sized (particleSphere (runFrames svc frs))"
    by (induction frs arbitrary: svc) (simp_all add: runFrames_Nil runFrames_Cons update_general)
qed

lemma runFrames_bounded:
  assumes "\<forall>k\<in>set (spreadKickT (particleSphere svc)). k \<le> 1"
    "\<forall>t\<in>set (spreadTimers (particleSphere svc)). 0 \<le> t"
  shows "(\<forall>k\<in>set (spreadKickT (particleSphere (runFrames svc frs))). k \<le> 1) \<and>
         (\<forall>t\<in>set (spreadTimers (particleSphere (runFrames svc frs))). 0 \<le> t)"
  using assms
proof (induction frs arbitrary: svc)
  case Nil
  then show ?case by (simp add: runFrames_Nil)
next
  case (Cons fr frs)
  show ?case
    unfolding runFrames_Cons
    using update_bounded[OF Cons.prems, of fr] by (intro Cons.IH) simp_all
qed

subsection \<open>The example field\<close>

lemma upt_2: "[0..<2] = [0, 1]"
  by (simp add: upt_rec)

lemma fibonacciPoint_2:
  "fibonacciPoint 2 0 = Inr (Vec3 0 1 0)" "fibonacciPoint 2 (Suc 0) = Inr (Vec3 0 (- 1) 0)"
  by (simp_all add: fibonacciPoint_def js_div_def js_sqrt_def Let_def)

lemma newParticleSphere_2: "newParticleSphere 2 2 = Inr sphere2"
  by (simp add: newParticleSphere_def initParticles_def upt_2 pushParticle_def
      fibonacciPoint_2 sphere2_def Let_def)

lemma sphere2_sized: "sized sphere2" "sized kickedSphere2"
  by (simp_all add: sized_def sphere2_def kickedSphere2_def)

lemma sphere2_count: "DOT_COUNT sphere2 = 2" "DOT_COUNT kickedSphere2 = 2"
  by (simp_all add: sphere2_def kickedSphere2_def)

section \<open>Single frames\<close>

text \<open>
  Claim C10. When \<open>update\<close> is called with a null pointer, or without points or camera,
  the pointer pass is skipped: the field is the one \<open>animateSpreadReturn\<close> leaves, whose
  only writes go to the offsets, the timers and the kick progress, each point taking the
  step of its regime (kick advance, timer decrement floored at 0, 3\% decay); count,
  radius and original positions stay, and \<open>morphLerp\<close> is eased 5\% toward its target.
  Without points the call then ends in a \<open>TypeError\<close>, the field being as described.
\<close>

theorem update_without_pointer_pass:
  assumes "pointer fr = None \<or> points fr = None \<or> camera fr = None"
    and "sized (particleSphere svc)"
  shows "particleSphere (fst (update svc fr)) = animateSpreadReturn (particleSphere svc) \<and>
         animateSpreadReturn (particleSphere svc) =
           (particleSphere svc)
             \<lparr> spreadOffsets := spreadOffsets (animateSpreadReturn (particleSphere svc)),
               spreadTimers := spreadTimers (animateSpreadReturn (particleSphere svc)),
               spreadKickT := spreadKickT (animateSpreadReturn (particleSphere svc)) \<rparr> \<and>
         (\<forall>i<DOT_COUNT (particleSphere svc).
            dotState (particleSphere (fst (update svc fr))) i =
              spec_pointStep (dotState (particleSphere svc) i)) \<and>
         morphLerp (fst (update svc fr)) =
           morphLerp svc + (morphTarget svc - morphLerp svc) * 0.05 \<and>
         (points fr = None \<longrightarrow> snd (update svc fr) = Inl TypeError)"
proof -
  have np: "\<not> pointerPass fr" using assms(1) by (auto simp: pointerPass_def)
  have 3: "snd (update svc fr) = Inl TypeError" if "points fr = None"
    using that by (simp add: update_def Let_def)
  have 1: "particleSphere (fst (update svc fr)) = animateSpreadReturn (particleSphere svc)"
    by (rule update_nopass[OF np])
  have 2: "dotState (particleSphere (fst (update svc fr))) i =
              spec_pointStep (dotState (particleSphere svc) i)"
    if "i < DOT_COUNT (particleSphere svc)" for i
    unfolding 1 by (rule animateSpreadReturn_point(1)[OF assms(2) that])
  show ?thesis
    using 1 2 3 animateSpreadReturn_writes[of "particleSphere svc"] update_service(1)[of svc fr]
    by blast
qed

theorem update_without_pointer_pass_witness:
  "(pointer idleFrame = None \<or> points idleFrame = None \<or> camera idleFrame = None) \<and>
   sized (particleSphere (newParticleInteractionService kickedSphere2)) \<and>
   particleSphere (fst (update (newParticleInteractionService kickedSphere2) idleFrame)) =
     animateSpreadReturn kickedSphere2 \<and>
   dotState (particleSphere (fst (update (newParticleInteractionService kickedSphere2) idleFrame))) 0 =
     spec_pointStep (dotState kickedSphere2 0)"
proof -
  have h1: "pointer idleFrame = None \<or> points idleFrame = None \<or> camera idleFrame = None"
    by (simp add: idleFrame_def)
  have h2: "sized (particleSphere (newParticleInteractionService kickedSphere2))"
    by (simp add: newParticleInteractionService_def sphere2_sized)
  have ps: "particleSphere (newParticleInteractionService kickedSphere2) = kickedSphere2"
    by (simp add: newParticleInteractionService_def)
  have i: "0 < DOT_COUNT (particleSphere (newParticleInteractionService kickedSphere2))"
    by (simp add: ps sphere2_count)
  show ?thesis
    using h1 h2 i update_without_pointer_pass[OF h1 h2] unfolding ps by blast
qed

text \<open>
  Claim C7. For a kicking point (\<open>kickProgress < 1\<close>), \<open>animateSpreadReturn\<close> advances
  \<open>kickProgress\<close> by 0.035 clamped to 1, so it does not decrease, and sets the offset to
  \<open>kickStart + kickDirection * easeInOutSine kickProgress\<close>, leaving \<open>kickStart\<close> and
  \<open>kickDirection\<close> as they are; while the advanced value is below 1 the rest of the frame
  leaves all of this in place, whatever the pointer does; and \<open>easeInOutSine 0 = 0\<close>,
  \<open>easeInOutSine 1 = 1\<close>.
\<close>

theorem kick_advances_monotonically:
  assumes "sized (particleSphere svc)" and "i < DOT_COUNT (particleSphere svc)"
    and "kickProgress (particleSphere svc) i < 1"
  shows "kickProgress (animateSpreadReturn (particleSphere svc)) i =
           min 1 (kickProgress (particleSphere svc) i + 0.035) \<and>
         kickProgress (particleSphere svc) i \<le>
           kickProgress (animateSpreadReturn (particleSphere svc)) i \<and>
         spreadOffset (animateSpreadReturn (particleSphere svc)) i =
           vadd (kickStart (particleSphere svc) i)
             (multiplyScalar (kickDirection (particleSphere svc) i)
                (easeInOutSine (kickProgress (animateSpreadReturn (particleSphere svc)) i))) \<and>
         kickStart (animateSpreadReturn (particleSphere svc)) i = kickStart (particleSphere svc) i \<and>
         kickDirection (animateSpreadReturn (particleSphere svc)) i =
           kickDirection (particleSphere svc) i \<and>
         (kickProgress (particleSphere svc) i + 0.035 < 1 \<longrightarrow>
            kickProgress (particleSphere (fst (update svc fr))) i =
              kickProgress (particleSphere svc) i + 0.035 \<and>
            spreadOffset (particleSphere (fst (update svc fr))) i =
              vadd (kickStart (particleSphere svc) i)
                (multiplyScalar (kickDirection (particleSphere svc) i)
                   (easeInOutSine (kickProgress (particleSphere svc) i + 0.035))) \<and>
            kickStart (particleSphere (fst (update svc fr))) i = kickStart (particleSphere svc) i \<and>
            kickDirection (particleSphere (fst (update svc fr))) i =
              kickDirection (particleSphere svc) i) \<and>
         easeInOutSine 0 = 0 \<and> easeInOutSine 1 = 1"
proof -
  let ?ps = "particleSphere svc"
  have a: "dotState (animateSpreadReturn ?ps) i = spec_pointStep (dotState ?ps i)"
    by (rule animateSpreadReturn_point(1)[OF assms(1,2)])
  have a': "kickProgress (animateSpreadReturn ?ps) i = min 1 (kickProgress ?ps i + 0.035)"
    "spreadOffset (animateSpreadReturn ?ps) i =
       vadd (kickStart ?ps i)
         (multiplyScalar (kickDirection ?ps i) (easeInOutSine (min 1 (kickProgress ?ps i + 0.035))))"
    "kickStart (animateSpreadReturn ?ps) i = kickStart ?ps i"
    "kickDirection (animateSpreadReturn ?ps) i = kickDirection ?ps i"
    using a assms(3) by (simp_all add: dotState_def spec_pointStep_def)
  have mono: "kickProgress ?ps i \<le> kickProgress (animateSpreadReturn ?ps) i"
    using assms(3) unfolding a'(1) by simp
  have frame: "kickProgress (particleSphere (fst (update svc fr))) i = kickProgress ?ps i + 0.035 \<and>
            spreadOffset (particleSphere (fst (update svc fr))) i =
              vadd (kickStart ?ps i)
                (multiplyScalar (kickDirection ?ps i) (easeInOutSine (kickProgress ?ps i + 0.035))) \<and>
            kickStart (particleSphere (fst (update svc fr))) i = kickStart ?ps i \<and>
            kickDirection (particleSphere (fst (update svc fr))) i = kickDirection ?ps i"
    if k: "kickProgress ?ps i + 0.035 < 1"
  proof -
    have "dotState (particleSphere (fst (update svc fr))) i =
            spec_quietFrame (pointerPass fr) (dotState ?ps i)"
      using k by (intro update_quiet[OF assms(1,2)]) simp
    then show ?thesis
      using k assms(3) by (simp add: dotState_def spec_quietFrame_def spec_pointStep_def)
  qed
  have e: "easeInOutSine 0 = 0" "easeInOutSine 1 = 1" by (simp_all add: easeInOutSine_def)
  show ?thesis
    using a'(1) mono a'(2)[folded a'(1)] a'(3,4) frame e by blast
qed

theorem kick_advances_monotonically_witness:
  "sized (particleSphere (newParticleInteractionService kickedSphere2)) \<and>
   0 < DOT_COUNT (particleSphere (newParticleInteractionService kickedSphere2)) \<and>
   kickProgress (particleSphere (newParticleInteractionService kickedSphere2)) 0 < 1 \<and>
   kickProgress (particleSphere (newParticleInteractionService kickedSphere2)) 0 + 0.035 < 1 \<and>
   kickProgress (animateSpreadReturn (particleSphere (newParticleInteractionService kickedSphere2))) 0 =
     0.035 \<and>
   kickProgress (particleSphere (fst (update (newParticleInteractionService kickedSphere2) swipeFrame))) 0 =
     0.035"
proof -
  let ?svc = "newParticleInteractionService kickedSphere2"
  have ps: "particleSphere ?svc = kickedSphere2"
    by (simp add: newParticleInteractionService_def)
  have h1: "sized (particleSphere ?svc)" by (simp add: ps sphere2_sized)
  have h2: "0 < DOT_COUNT (particleSphere ?svc)" by (simp add: ps sphere2_count)
  have k0: "kickProgress (particleSphere ?svc) 0 = 0"
    unfolding ps by (simp add: kickProgress_def kickedSphere2_def)
  have h3: "kickProgress (particleSphere ?svc) 0 < 1" by (simp add: k0)
  have h4: "kickProgress (particleSphere ?svc) 0 + 0.035 < 1" by (simp add: k0)
  show ?thesis
    using h1 h2 h3 h4 kick_advances_monotonically[OF h1 h2 h3, of swipeFrame]
    by (simp add: k0)
qed

lemma toggle_frames_keep_morphLerp:
  assumes "morphLerp svc = 1 \<and> morphTarget svc = 1"
  shows "morphLerp (fold (\<lambda>fr s. fst (update (setEnableMorph c s) fr)) frs svc) = 1 \<and>
         morphTarget (fold (\<lambda>fr s. fst (update (setEnableMorph c s) fr)) frs svc) = 1"
  using assms
proof (induction frs arbitrary: svc)
  case Nil
  then show ?case by simp
next
  case (Cons fr frs)
  have "morphLerp (fst (update (setEnableMorph c svc) fr)) = 1 \<and>
        morphTarget (fst (update (setEnableMorph c svc) fr)) = 1"
    using Cons.prems by (simp add: update_service setEnableMorph_def)
  then show ?case using Cons.IH by simp
qed

lemma runFramesWithToggle_morphLerp:
  "morphLerp (runFramesWithToggle c (newParticleInteractionService ps) frs) = 1"
  "morphTarget (runFramesWithToggle c (newParticleInteractionService ps) frs) = 1"
proof -
  have "morphLerp (newParticleInteractionService ps) = 1 \<and>
        morphTarget (newParticleInteractionService ps) = 1"
    by (simp add: newParticleInteractionService_def)
  from toggle_frames_keep_morphLerp[OF this]
  show "morphLerp (runFramesWithToggle c (newParticleInteractionService ps) frs) = 1"
    "morphTarget (runFramesWithToggle c (newParticleInteractionService ps) frs) = 1"
    by (simp_all add: runFramesWithToggle_def)
qed

lemma baseOffset_north_pole: "baseOffset sphere2 0 0 = 0.15"
  by (simp add: baseOffset_def Let_def sphere2_def clamp_def atan2_def)

text \<open>The flag is read by \<open>animate\<close> alone, where it switches the scale at once.\<close>

lemma animateScale_switches_at_once:
  "animateScale (setEnableMorph False svc) t = 1"
  "animateScale (setEnableMorph True svc) t = 1 + sin (t * 0.001) * 0.05"
  by (simp_all add: animateScale_def setEnableMorph_def)

text \<open>
  Claim C1, on the code. The flag the toggle assigns, \<open>enableMorph\<close>, is not read by
  \<open>update\<close>, and nothing assigns \<open>morphTarget\<close>: whatever the flag and however many frames
  pass, \<open>morphTarget\<close> and \<open>morphLerp\<close> stay at the 1 the constructor gave them, so the
  radial term \<open>radOffset\<close> stays the whole \<open>baseOffset\<close>; with the flag held false on the
  two-point sphere, the radial term of the north pole at time 0 is 0.15 after any number
  of frames.
\<close>

theorem morph_flag_is_never_read:
  "morphLerp (runFramesWithToggle checked (newParticleInteractionService ps) frs) = 1 \<and>
   morphTarget (runFramesWithToggle checked (newParticleInteractionService ps) frs) = 1 \<and>
   radOffset ps' (morphLerp (runFramesWithToggle checked (newParticleInteractionService ps) frs)) t i =
     baseOffset ps' t i \<and>
   radOffset sphere2
     (morphLerp (runFramesWithToggle False (newParticleInteractionService sphere2) frs)) 0 0 =
     0.15"
  using baseOffset_north_pole
  by (simp add: runFramesWithToggle_morphLerp radOffset_def)

section \<open>The regimes of a point\<close>

subsection \<open>Square roots in the examples\<close>

lemma sqrt_less_iff_sq: "0 \<le> y \<Longrightarrow> sqrt x < y \<longleftrightarrow> x < y\<^sup>2"
  by (metis real_sqrt_less_iff real_sqrt_abs abs_of_nonneg)

lemma sqrt_2304_169: "sqrt (2304 / 169) = 48 / 13"
  by (rule real_sqrt_unique) (simp_all add: power2_eq_square)

lemma ex_cursor_prev:
  "cursorWorldOf sphere2 topCamera 1300 1300 (Pointer 900 650) = Vec3 (10 / 13) (24 / 13) 0"
  by (simp add: cursorWorldOf_def mouseNDC_def topCamera_def resolveCursor_def Let_def dot_def
      sphere2_def vadd_def multiplyScalar_def sqrt_2304_169)

lemma ex_cursor_cur:
  "cursorWorldOf sphere2 topCamera 1300 1300 (Pointer 400 650) = Vec3 (- 10 / 13) (24 / 13) 0"
  by (simp add: cursorWorldOf_def mouseNDC_def topCamera_def resolveCursor_def Let_def dot_def
      sphere2_def vadd_def multiplyScalar_def sqrt_2304_169)

lemma ex_cursor_equator:
  "cursorWorldOf sphere2 topCamera 1300 1300 (Pointer 1300 650) = Vec3 2 0 0"
  by (simp add: cursorWorldOf_def mouseNDC_def topCamera_def resolveCursor_def Let_def dot_def
      sphere2_def vadd_def multiplyScalar_def)

lemma ex_dist:
  "layout ps = layout sphere2 \<Longrightarrow>
     distToCursor ps stillPoints c 0 = sqrt ((vx c)\<^sup>2 + (2 - vy c)\<^sup>2 + (vz c)\<^sup>2)"
  "layout ps = layout sphere2 \<Longrightarrow> cursorRadius ps = 0.76"
  by (simp_all add: layout_def distToCursor_def originalPosition_def triple_def sphere2_def
      stillPoints_def vlength_def dot_def vsub_def cursorRadius_def power2_eq_square)

subsection \<open>The branches of the inner loop\<close>

lemma spreadDot_soft:
  assumes "sized ps" "i < DOT_COUNT ps" "i < length t"
    and "\<not> kickProgress ps i < 1"
    and "\<not> distToCursor ps pts ic i < cursorRadius ps"
    and "distToCursor ps pts ic i < cursorRadius ps + 0.18"
  shows "kickProgress (fst (spreadDot pts p lastP cw ic i (ps, k, t))) i = kickProgress ps i"
    and "returnTimer (fst (spreadDot pts p lastP cw ic i (ps, k, t))) i = 0.4"
    and "snd (snd (spreadDot pts p lastP cw ic i (ps, k, t))) ! i"
  using assms
  by (simp_all add: spreadDot_def Let_def distToCursor_def cursorRadius_def originalPosition_def
      triple_def kickProgress_def returnTimer_def sized_def)

lemma spreadDot_kick:
  assumes "sized ps" "i < DOT_COUNT ps" "i < length t"
    and "\<not> kickProgress ps i < 1"
    and "distToCursor ps pts ic i < cursorRadius ps"
    and "pointerForce p lastP > 0.5" "k < 2"
  shows "kickProgress (fst (spreadDot pts p lastP cw ic i (ps, k, t))) i = 0"
    and "returnTimer (fst (spreadDot pts p lastP cw ic i (ps, k, t))) i = returnTimer ps i"
    and "snd (snd (spreadDot pts p lastP cw ic i (ps, k, t))) ! i"
    and "fst (snd (spreadDot pts p lastP cw ic i (ps, k, t))) = k + 1"
  using assms
  by (simp_all add: spreadDot_def Let_def distToCursor_def cursorRadius_def originalPosition_def
      triple_def kickProgress_def returnTimer_def sized_def)

lemma fold_spreadDot_others:
  assumes "i \<notin> set js"
  shows "dotState (fst (fold (spreadDot pts p lastP cw ic) js st)) i = dotState (fst st) i \<and>
         snd (snd (fold (spreadDot pts p lastP cw ic) js st)) ! i = snd (snd st) ! i"
  using assms
proof (induction js arbitrary: st)
  case Nil
  then show ?case by simp
next
  case (Cons j js)
  then have "j \<noteq> i" "i \<notin> set js" by auto
  then show ?case using Cons.IH[of "spreadDot pts p lastP cw ic j st"] spreadDot_other[of j i]
    by simp
qed

text \<open>Point 0 is visited first, with no kick counted yet; the later visits leave it alone.\<close>

lemma spreadStepLoop_first:
  assumes "0 < DOT_COUNT (fst st)"
  shows "dotState (fst (spreadStepLoop pts p lastP cw ic st)) 0 =
           dotState (fst (spreadDot pts p lastP cw ic 0 (fst st, 0, snd st))) 0"
    and "snd (snd (spreadStepLoop pts p lastP cw ic st)) ! 0 =
           snd (snd (spreadDot pts p lastP cw ic 0 (fst st, 0, snd st))) ! 0"
proof -
  have u: "[0..<DOT_COUNT (fst st)] = 0 # [1..<DOT_COUNT (fst st)]"
    using assms by (simp add: upt_rec)
  have "(0::nat) \<notin> set [1..<DOT_COUNT (fst st)]" by simp
  from fold_spreadDot_others[OF this]
  show "dotState (fst (spreadStepLoop pts p lastP cw ic st)) 0 =
           dotState (fst (spreadDot pts p lastP cw ic 0 (fst st, 0, snd st))) 0"
    and "snd (snd (spreadStepLoop pts p lastP cw ic st)) ! 0 =
           snd (snd (spreadDot pts p lastP cw ic 0 (fst st, 0, snd st))) ! 0"
    unfolding spreadStepLoop_def u by simp_all
qed

lemma spreadStep_kicking_kept:
  assumes "kickProgress (fst st) i < 1"
  shows "dotState (fst (spreadStep pts p lastP prev cw s st)) i = dotState (fst st) i"
    and "snd (spreadStep pts p lastP prev cw s st) ! i = snd st ! i"
  using spreadStepLoop_quiet[of st i pts "interpCursorAt prev cw s" p lastP cw] assms
  by (simp_all add: spreadStep_fst_snd)

subsection \<open>The swipe over the north pole\<close>

lemma sqrt_greater_iff_sq: "0 \<le> y \<Longrightarrow> y < sqrt x \<longleftrightarrow> y\<^sup>2 < x"
  by (metis real_sqrt_less_iff real_sqrt_abs abs_of_nonneg)

lemma ex_force: "pointerForce (Pointer 400 650) (Some (Pointer 900 650)) > 0.5"
proof -
  have "(5 / 2 :: real) < sqrt 250000"
    by (subst sqrt_greater_iff_sq) (simp_all add: power2_eq_square)
  then show ?thesis by (simp add: pointerForce_def Let_def)
qed

lemma dotState_eqD:
  assumes "dotState a i = dotState b j"
  shows "kickProgress a i = kickProgress b j" "returnTimer a i = returnTimer b j"
    "spreadOffset a i = spreadOffset b j" "kickStart a i = kickStart b j"
    "kickDirection a i = kickDirection b j"
  using assms by (simp_all add: dotState_def)

lemma swipe_steps:
  assumes sz: "sized ps1" and lay: "layout ps1 = layout sphere2"
    and k1: "\<not> kickProgress ps1 0 < 1"
  shows "kickProgress (fst (spreadSteps ps1 (Pointer 400 650) (Some (Pointer 900 650)) True
            stillPoints topCamera 1300 1300)) 0 = 0 \<and>
         returnTimer (fst (spreadSteps ps1 (Pointer 400 650) (Some (Pointer 900 650)) True
            stillPoints topCamera 1300 1300)) 0 = 0.4 \<and>
         snd (spreadSteps ps1 (Pointer 400 650) (Some (Pointer 900 650)) True
            stillPoints topCamera 1300 1300) ! 0"
proof -
  let ?p = "Pointer 400 650" and ?lp = "Some (Pointer 900 650)"
  let ?cw = "Vec3 (- 10 / 13) (24 / 13) 0"
  let ?prev = "Some (Vec3 (10 / 13) (24 / 13) 0)"
  let ?S = "spreadStep stillPoints ?p ?lp ?prev ?cw"
  let ?s0 = "(ps1, replicate (DOT_COUNT ps1) False)"
  have n: "DOT_COUNT ps1 = 2" using lay by (simp add: layout_def sphere2_def)
  have cw: "cursorWorldOf ps1 topCamera 1300 1300 ?p = ?cw"
    by (simp only: layout_cong(6)[OF lay] ex_cursor_cur)
  have prev: "prevCursorWorldOf ps1 topCamera 1300 1300 ?lp True = ?prev"
    by (simp add: prevCursorWorldOf_def layout_cong(6)[OF lay] ex_cursor_prev)
  have steps: "spreadSteps ps1 ?p ?lp True stillPoints topCamera 1300 1300 =
               fold ?S [2..<13] (?S 1 (?S 0 ?s0))"
  proof -
    have u: "[0..<13] = 0 # 1 # [2..<13]" by (simp add: upt_rec)
    show ?thesis by (simp only: spreadSteps_def Let_def cw prev u fold_simps comp_apply)
  qed
  \<comment> \<open>step 0: the point is in the soft band of the previous cursor\<close>
  let ?ic0 = "interpCursorAt ?prev ?cw 0"
  have b0: "\<not> sqrt (104 / 169) < (0.76::real)" "sqrt (104 / 169) < (0.94::real)"
    by (subst sqrt_less_iff_sq; simp add: power2_eq_square)+
  have d0: "\<not> distToCursor ps1 stillPoints ?ic0 0 < cursorRadius ps1"
    "distToCursor ps1 stillPoints ?ic0 0 < cursorRadius ps1 + 0.18"
    using b0 by (simp_all add: ex_dist[OF lay] interpCursorAt_def lerpVec3_def power2_eq_square)
  let ?st1 = "?S 0 ?s0"
  have l1: "layout (fst ?st1) = layout sphere2" "sized (fst ?st1)" "length (snd ?st1) = 2"
    using sz lay n by (simp_all add: spreadStep_general)
  have s1: "kickProgress (fst ?st1) 0 = kickProgress ps1 0" "returnTimer (fst ?st1) 0 = 0.4"
    "snd ?st1 ! 0"
  proof -
    have "dotState (fst ?st1) 0 =
          dotState (fst (spreadDot stillPoints ?p ?lp ?cw ?ic0 0 (ps1, 0, replicate (DOT_COUNT ps1) False))) 0"
      and t: "snd ?st1 ! 0 =
          snd (snd (spreadDot stillPoints ?p ?lp ?cw ?ic0 0 (ps1, 0, replicate (DOT_COUNT ps1) False))) ! 0"
      using spreadStepLoop_first[of ?s0 stillPoints ?p ?lp ?cw ?ic0] n
      by (simp_all add: spreadStep_fst_snd)
    note e = dotState_eqD[OF this(1)]
    have len: "0 < length (replicate (DOT_COUNT ps1) False)" "0 < DOT_COUNT ps1" using n by simp_all
    note b = spreadDot_soft[OF sz len(2) len(1) k1 d0, of ?p ?lp ?cw 0]
    show "kickProgress (fst ?st1) 0 = kickProgress ps1 0" using e(1) b(1) by simp
    show "returnTimer (fst ?st1) 0 = 0.4" using e(2) b(2) by simp
    show "snd ?st1 ! 0" using t b(3) by simp
  qed
  \<comment> \<open>step 1: the interpolated cursor has the point inside the exclusion zone\<close>
  let ?ic1 = "interpCursorAt ?prev ?cw 1"
  have b1: "sqrt (661 / 1521) < (0.76::real)"
    by (subst sqrt_less_iff_sq; simp add: power2_eq_square)
  have d1: "distToCursor (fst ?st1) stillPoints ?ic1 0 < cursorRadius (fst ?st1)"
    using b1 unfolding ex_dist[OF l1(1)]
    by (simp add: interpCursorAt_def lerpVec3_def power2_eq_square)
  let ?st2 = "?S 1 ?st1"
  have s2: "kickProgress (fst ?st2) 0 = 0" "returnTimer (fst ?st2) 0 = 0.4" "snd ?st2 ! 0"
  proof -
    have "dotState (fst ?st2) 0 =
          dotState (fst (spreadDot stillPoints ?p ?lp ?cw ?ic1 0 (fst ?st1, 0, snd ?st1))) 0"
      and t: "snd ?st2 ! 0 =
          snd (snd (spreadDot stillPoints ?p ?lp ?cw ?ic1 0 (fst ?st1, 0, snd ?st1))) ! 0"
      using spreadStepLoop_first[of ?st1 stillPoints ?p ?lp ?cw ?ic1] l1(1)
      by (simp_all add: spreadStep_fst_snd layout_def sphere2_def)
    note e = dotState_eqD[OF this(1)]
    have c: "0 < DOT_COUNT (fst ?st1)" "0 < length (snd ?st1)"
      using l1 by (simp_all add: layout_def sphere2_def)
    have k: "\<not> kickProgress (fst ?st1) 0 < 1" using s1(1) k1 by simp
    note b = spreadDot_kick[OF l1(2) c k d1 ex_force, of 0 ?cw]
    show "kickProgress (fst ?st2) 0 = 0" using e(1) b(1) by simp
    show "returnTimer (fst ?st2) 0 = 0.4" using e(2) b(2) s1(2) by simp
    show "snd ?st2 ! 0" using t b(3) by simp
  qed
  \<comment> \<open>steps 2 to 12 skip the kicked point\<close>
  let ?I = "\<lambda>st. kickProgress (fst st) 0 = 0 \<and> returnTimer (fst st) 0 = 0.4 \<and> snd st ! 0"
  have "?I (fold ?S [2..<13] ?st2)"
  proof (rule fold_preserves[where I = ?I])
    show "?I (?S s st)" if I: "?I st" for s st
    proof -
      have "kickProgress (fst st) 0 < 1" using I by simp
      note kept = spreadStep_kicking_kept[OF this, of stillPoints ?p ?lp ?prev ?cw s]
      show ?thesis using I dotState_eqD(1,2)[OF kept(1)] kept(2) by simp
    qed
    show "?I ?st2" using s2 by simp
  qed
  then show ?thesis unfolding steps .
qed

lemma swipe_frame:
  "kickProgress (particleSphere (runFrames (newParticleInteractionService sphere2) [swipeFrame])) 0 = 0"
  "returnTimer (particleSphere (runFrames (newParticleInteractionService sphere2) [swipeFrame])) 0 = 0.4"
proof -
  let ?ps1 = "animateSpreadReturn sphere2"
  let ?st = "spreadSteps ?ps1 (Pointer 400 650) (Some (Pointer 900 650)) True
               stillPoints topCamera 1300 1300"
  have sz: "sized ?ps1" by (simp add: animateSpreadReturn_general sphere2_sized)
  have lay: "layout ?ps1 = layout sphere2" by (rule animateSpreadReturn_general)
  have i: "0 < DOT_COUNT sphere2" "0 < DOT_COUNT ?ps1"
    using layout_cong(1)[OF lay] by (simp_all add: sphere2_count)
  have "dotState ?ps1 0 = spec_pointStep (dotState sphere2 0)"
    by (rule animateSpreadReturn_point(1)[OF sphere2_sized(1) i(1)])
  then have k1: "\<not> kickProgress ?ps1 0 < 1"
    by (simp add: dotState_def spec_pointStep_def kickProgress_def returnTimer_def sphere2_def)
  note s = swipe_steps[OF sz lay k1]
  have run: "particleSphere (runFrames (newParticleInteractionService sphere2) [swipeFrame]) =
        spreadDots ?ps1 (Pointer 400 650) (Some (Pointer 900 650)) True stillPoints topCamera
          1300 1300"
  proof -
    have f: "pointer swipeFrame = Some (Pointer 400 650)" "points swipeFrame = Some stillPoints"
      "camera swipeFrame = Some topCamera" "lastPointer swipeFrame = Some (Pointer 900 650)"
      "lastPointerEvent swipeFrame = True" "innerWidth swipeFrame = 1300"
      "innerHeight swipeFrame = 1300"
      by (simp_all add: swipeFrame_def idleFrame_def)
    have "particleSphere (newParticleInteractionService sphere2) = sphere2"
      by (simp add: newParticleInteractionService_def)
    then show ?thesis
      by (simp only: runFrames_Cons runFrames_Nil update_pass[OF f(1,2,3)] f)
  qed
  note d = spreadDots_point(1)[OF sz i(2), of "Pointer 400 650" "Some (Pointer 900 650)" True
      stillPoints topCamera 1300 1300]
  show "kickProgress (particleSphere (runFrames (newParticleInteractionService sphere2) [swipeFrame])) 0 = 0"
    unfolding run using d s by (simp add: dotState_def split: prod.splits)
  show "returnTimer (particleSphere (runFrames (newParticleInteractionService sphere2) [swipeFrame])) 0 = 0.4"
    unfolding run using d s by (simp add: dotState_def split: prod.splits)
qed

subsection \<open>The regimes after any frames\<close>

lemma newParticleSphere_1: "newParticleSphere (Suc 0) r = Inl NonFinite"
  by (simp add: newParticleSphere_def initParticles_def pushParticle_def fibonacciPoint_def
      js_div_def)

lemma newParticleSphere_bounded:
  assumes "newParticleSphere count radius = Inr ps" "0 < count"
  shows "sized ps" "DOT_COUNT ps = count"
    "\<forall>k\<in>set (spreadKickT ps). k \<le> 1" "\<forall>t\<in>set (spreadTimers ps). 0 \<le> t"
proof -
  have "count \<noteq> Suc 0" using assms(1) newParticleSphere_1 by auto
  then have c: "2 \<le> count" using assms(2) by arith
  note f = newParticleSphere_facts[OF c assms(1)]
  show "sized ps" "DOT_COUNT ps = count" by (rule f)+
  have len: "length (spreadKickT ps) = count" "length (spreadTimers ps) = count"
    using f(1,3) by (simp_all add: sized_def)
  show "\<forall>k\<in>set (spreadKickT ps). k \<le> 1"
    using f(5) len(1) by (auto simp: in_set_conv_nth kickProgress_def)
  show "\<forall>t\<in>set (spreadTimers ps). 0 \<le> t"
    using f(6) len(2) by (auto simp: in_set_conv_nth returnTimer_def)
qed

text \<open>
  Claim C2, as stated, fails. After one frame in which the pointer swipes over the north
  pole of the two-point sphere, point 0 has been eased in the soft band of the first
  cursor sample (\<open>returnTimer = 0.4\<close>) and kicked at the second (\<open>kickProgress = 0\<close>): it is
  kicking and holding at once.
\<close>

theorem kicked_point_keeps_return_timer:
  "newParticleSphere 2 2 = Inr sphere2 \<and>
   kicking (particleSphere (runFrames (newParticleInteractionService sphere2) [swipeFrame])) 0 \<and>
   holding (particleSphere (runFrames (newParticleInteractionService sphere2) [swipeFrame])) 0 \<and>
   \<not> exactlyOne
     [kicking (particleSphere (runFrames (newParticleInteractionService sphere2) [swipeFrame])) 0,
      holding (particleSphere (runFrames (newParticleInteractionService sphere2) [swipeFrame])) 0,
      returning (particleSphere (runFrames (newParticleInteractionService sphere2) [swipeFrame])) 0]"
  using swipe_frame newParticleSphere_2
  by (simp add: kicking_def holding_def returning_def exactlyOne_def)

text \<open>
  Claim C2, amended. After any sequence of frames on a constructed field, every point is
  in exactly one of the regimes kicking (\<open>kickProgress < 1\<close>), held (\<open>kickProgress = 1\<close> and
  \<open>returnTimer > 0\<close>) and returning (\<open>returnTimer = 0\<close> and \<open>kickProgress = 1\<close>): the kick
  takes precedence over the timer, as in \<open>animateSpreadReturn\<close>. Moreover
  \<open>kickProgress \<le> 1\<close> and \<open>returnTimer \<ge> 0\<close> throughout.
\<close>

theorem regimes_exclusive_with_kick_first:
  assumes "newParticleSphere count radius = Inr ps" and "i < count"
  shows "exactlyOne
     [kicking (particleSphere (runFrames (newParticleInteractionService ps) frs)) i,
      held (particleSphere (runFrames (newParticleInteractionService ps) frs)) i,
      returning (particleSphere (runFrames (newParticleInteractionService ps) frs)) i] \<and>
     kickProgress (particleSphere (runFrames (newParticleInteractionService ps) frs)) i \<le> 1 \<and>
     0 \<le> returnTimer (particleSphere (runFrames (newParticleInteractionService ps) frs)) i"
proof -
  let ?svc = "newParticleInteractionService ps"
  let ?ps' = "particleSphere (runFrames ?svc frs)"
  have c: "0 < count" using assms(2) by simp
  note b = newParticleSphere_bounded[OF assms(1) c]
  have ps: "particleSphere ?svc = ps" by (simp add: newParticleInteractionService_def)
  have sz: "sized ?ps'" using runFrames_general(2)[of ?svc frs] b(1) ps by simp
  have "layout ?ps' = layout ps" using runFrames_general(1)[of ?svc frs] ps by simp
  then have n: "DOT_COUNT ?ps' = count" using b(2) by (simp add: layout_def)
  have bd: "\<forall>k\<in>set (spreadKickT ?ps'). k \<le> 1" "\<forall>t\<in>set (spreadTimers ?ps'). 0 \<le> t"
    using runFrames_bounded[of ?svc frs] b(3,4) ps by simp_all
  have len: "i < length (spreadKickT ?ps')" "i < length (spreadTimers ?ps')"
    using sz n assms(2) by (simp_all add: sized_def)
  have r: "kickProgress ?ps' i \<le> 1" "0 \<le> returnTimer ?ps' i"
    using bd len by (simp_all add: kickProgress_def returnTimer_def)
  then have "exactlyOne [kicking ?ps' i, held ?ps' i, returning ?ps' i]"
    by (auto simp: exactlyOne_def kicking_def held_def returning_def)
  then show ?thesis using r by simp
qed

theorem regimes_exclusive_with_kick_first_witness:
  "newParticleSphere 2 2 = Inr sphere2 \<and> (0::nat) < 2 \<and>
   exactlyOne
     [kicking (particleSphere (runFrames (newParticleInteractionService sphere2) [swipeFrame])) 0,
      held (particleSphere (runFrames (newParticleInteractionService sphere2) [swipeFrame])) 0,
      returning (particleSphere (runFrames (newParticleInteractionService sphere2) [swipeFrame])) 0]"
proof -
  have h: "(0::nat) < 2" by simp
  show ?thesis
    using newParticleSphere_2 h regimes_exclusive_with_kick_first[OF newParticleSphere_2 h]
    by blast
qed

section \<open>The kick cap of a step\<close>

lemma spreadDot_kick_cases:
  "(spreadKickT (fst (spreadDot pts p lastP cw ic j (ps, k, t))) = spreadKickT ps \<and>
      fst (snd (spreadDot pts p lastP cw ic j (ps, k, t))) = k) \<or>
   (spreadKickT (fst (spreadDot pts p lastP cw ic j (ps, k, t))) = (spreadKickT ps)[j := 0] \<and>
      fst (snd (spreadDot pts p lastP cw ic j (ps, k, t))) = k + 1 \<and> k < 2)"
  by (simp add: spreadDot_def Let_def)

lemma spreadStepLoop_kicks:
  "fst (snd (spreadStepLoop pts p lastP cw ic st)) \<le> 2 \<and>
   card {i. i < DOT_COUNT (fst st) \<and>
            spreadKickT (fst (spreadStepLoop pts p lastP cw ic st)) ! i \<noteq> spreadKickT (fst st) ! i}
     \<le> fst (snd (spreadStepLoop pts p lastP cw ic st))"
proof -
  let ?n = "DOT_COUNT (fst st)"
  let ?C = "\<lambda>s. {i. i < ?n \<and> spreadKickT (fst s) ! i \<noteq> spreadKickT (fst st) ! i}"
  let ?I = "\<lambda>s. fst (snd s) \<le> 2 \<and> card (?C s) \<le> fst (snd s)"
  have step: "?I (spreadDot pts p lastP cw ic j s)" if I: "?I s" for j s
  proof -
    obtain ps k t where s: "s = (ps, k, t)" by (cases s)
    let ?s' = "spreadDot pts p lastP cw ic j (ps, k, t)"
    consider (same) "spreadKickT (fst ?s') = spreadKickT ps" "fst (snd ?s') = k"
      | (kick) "spreadKickT (fst ?s') = (spreadKickT ps)[j := 0]" "fst (snd ?s') = k + 1" "k < 2"
      using spreadDot_kick_cases[of pts p lastP cw ic j ps k t] by blast
    then show ?thesis
    proof cases
      case same
      then show ?thesis using I by (simp add: s)
    next
      case kick
      have fin: "finite (?C s)" by simp
      have "?C (spreadDot pts p lastP cw ic j s) \<subseteq> insert j (?C s)"
        unfolding s using kick(1) by (auto simp: nth_list_update split: if_splits)
      then have "card (?C (spreadDot pts p lastP cw ic j s)) \<le> card (insert j (?C s))"
        by (intro card_mono) (simp_all add: fin)
      also have "\<dots> \<le> card (?C s) + 1" using fin by (simp add: card_insert_if)
      finally show ?thesis using I kick(2,3) by (simp add: s)
    qed
  qed
  have "?I (fold (spreadDot pts p lastP cw ic) js (fst st, 0, snd st))" for js
  proof (rule fold_preserves[where I = ?I])
    show "?I (spreadDot pts p lastP cw ic j s)" if "?I s" for j s using that by (rule step)
    show "?I (fst st, 0, snd st)" by simp
  qed
  then show ?thesis by (simp add: spreadStepLoop_def)
qed

lemma newKicks_le_changed:
  "newKicks ps ps' \<le> card {i. i < DOT_COUNT ps \<and> spreadKickT ps' ! i \<noteq> spreadKickT ps ! i}"
proof -
  have "newKicks ps ps' =
        card {i. i < DOT_COUNT ps \<and> \<not> spreadKickT ps ! i < 1 \<and> spreadKickT ps' ! i = 0}"
    unfolding newKicks_def length_filter_conv_card by (rule arg_cong[where f = card]) auto
  also have "\<dots> \<le> card {i. i < DOT_COUNT ps \<and> spreadKickT ps' ! i \<noteq> spreadKickT ps ! i}"
    by (rule card_mono) auto
  finally show ?thesis .
qed

text \<open>
  Claim C6. In every step of the interpolation pass, from any state of the field, the
  counter \<open>kicksThisStep\<close> ends at 2 at most, and at most 2 points that were not kicking
  have had \<open>kickProgress\<close> set to 0, however many points are in the exclusion zone.
\<close>

theorem at_most_two_kicks_per_step:
  "fst (snd (spreadStepLoop pts p lastP cursorWorld
               (interpCursorAt prevCursorWorld cursorWorld s) st)) \<le> 2 \<and>
   newKicks (fst st) (fst (spreadStep pts p lastP prevCursorWorld cursorWorld s st)) \<le> 2"
  using spreadStepLoop_kicks[of pts p lastP cursorWorld
      "interpCursorAt prevCursorWorld cursorWorld s" st]
    newKicks_le_changed[of "fst st"
      "fst (spreadStepLoop pts p lastP cursorWorld
              (interpCursorAt prevCursorWorld cursorWorld s) st)"]
  by (simp add: spreadStep_fst_snd)

section \<open>The pointer geometry resolver\<close>

lemma dot_nonneg: "0 \<le> dot v v"
  by (simp add: dot_def)

lemma vec3_zero_iff: "v = Vec3 0 0 0 \<longleftrightarrow> dot v v = 0"
proof (cases v)
  case (Vec3 a b c)
  have ab: "0 \<le> a * a + b * b" and cc: "0 \<le> c * c" by simp_all
  have "a * a + b * b + c * c = 0 \<longleftrightarrow> a * a + b * b = 0 \<and> c * c = 0"
    using add_nonneg_eq_0_iff[OF ab cc] .
  also have "\<dots> \<longleftrightarrow> a = 0 \<and> b = 0 \<and> c = 0"
    using sum_squares_eq_zero_iff[of a b] by simp
  finally show ?thesis by (simp add: Vec3 dot_def)
qed

lemma vlength_zero_iff: "vlength v = 0 \<longleftrightarrow> v = Vec3 0 0 0"
  unfolding vlength_def vec3_zero_iff by (rule real_sqrt_eq_zero_cancel_iff)

lemma vlength_normalize: "v \<noteq> Vec3 0 0 0 \<Longrightarrow> vlength (normalize v) = 1"
proof -
  assume "v \<noteq> Vec3 0 0 0"
  then have nz: "vlength v \<noteq> 0" by (simp add: vlength_zero_iff)
  have pos: "0 \<le> vlength v" by (simp add: vlength_def dot_nonneg)
  have "vlength (normalize v) = vlength v * \<bar>1 / vlength v\<bar>"
    using nz by (simp add: normalize_def vlength_multiplyScalar)
  then show ?thesis using nz pos by simp
qed

lemma vsub_vadd_cancel: "vsub (vadd a b) a = b"
  by (cases a; cases b) (simp add: vsub_def vadd_def)

lemma dot_vadd_multiplyScalar:
  "dot (vadd o' (multiplyScalar d t)) (vadd o' (multiplyScalar d t)) =
     dot d d * t\<^sup>2 + 2 * dot o' d * t + dot o' o'"
  by (simp add: dot_def vadd_def multiplyScalar_def power2_eq_square algebra_simps)

lemma nearer_root:
  fixes a b c :: real
  assumes a: "0 < a" and d: "0 \<le> b * b - 4 * a * c"
  defines "t \<equiv> (- b - sqrt (b * b - 4 * a * c)) / (2 * a)"
  shows "a * t\<^sup>2 + b * t + c = 0"
    and "\<And>t'. a * t'\<^sup>2 + b * t' + c = 0 \<Longrightarrow> t \<le> t'"
proof -
  let ?s = "sqrt (b * b - 4 * a * c)"
  have s2: "?s * ?s = b * b - 4 * a * c" using d by simp
  have s0: "0 \<le> ?s" using d by simp
  have ta: "2 * a * t = - b - ?s" using a by (simp add: t_def)
  have "4 * a * (a * t\<^sup>2 + b * t + c) = (2 * a * t) * (2 * a * t) + 2 * b * (2 * a * t) + 4 * a * c"
    by (simp add: power2_eq_square algebra_simps)
  also have "\<dots> = (- b - ?s) * (- b - ?s) + 2 * b * (- b - ?s) + 4 * a * c"
    unfolding ta ..
  also have "\<dots> = ?s * ?s - b * b + 4 * a * c" by (simp add: algebra_simps)
  also have "\<dots> = 0" unfolding s2 by simp
  finally show "a * t\<^sup>2 + b * t + c = 0" using a by simp
  fix t'
  assume r: "a * t'\<^sup>2 + b * t' + c = 0"
  have "(2 * a * t' + b)\<^sup>2 = 4 * a * (a * t'\<^sup>2 + b * t' + c) + (b * b - 4 * a * c)"
    by (simp add: power2_eq_square algebra_simps)
  also have "\<dots> = ?s\<^sup>2" using r s2 by (simp add: power2_eq_square)
  finally have "2 * a * t' + b = ?s \<or> 2 * a * t' + b = - ?s"
    by (simp only: power2_eq_iff)
  then have "- ?s \<le> 2 * a * t' + b" using s0 by linarith
  then have "2 * a * t \<le> 2 * a * t'" unfolding ta by linarith
  then show "t \<le> t'" using a by simp
qed

text \<open>
  Claim C5. The resolver is a function of the ray, the radius and the camera position
  with no error path. For a ray whose direction is not zero and a positive radius: when
  the discriminant is not negative it returns \<open>origin + t * dir\<close> for the root
  \<open>t = (- b - sqrt disc) / (2 a)\<close>, which is the smaller root of the quadratic, and that
  point lies at distance \<open>radius\<close> from the world origin; when the discriminant is
  negative it returns the camera position plus \<open>radius\<close> times the normalized direction
  from the camera to the point 5 units along the ray, which lies at distance \<open>radius\<close>
  from the camera position whenever that point is not the camera position itself (as with
  a perspective camera, whose rays start at the camera position).
\<close>

theorem resolveCursor_postcondition:
  assumes "direction r \<noteq> Vec3 0 0 0" and "0 < radius"
  shows "(0 \<le> rayDiscriminant radius r \<longrightarrow>
            resolveCursor radius camPos r =
              vadd (origin r)
                (multiplyScalar (direction r)
                   ((- rayB r - sqrt (rayDiscriminant radius r)) / (2 * rayA r))) \<and>
            rayA r * ((- rayB r - sqrt (rayDiscriminant radius r)) / (2 * rayA r))\<^sup>2 +
              rayB r * ((- rayB r - sqrt (rayDiscriminant radius r)) / (2 * rayA r)) +
              rayC radius r = 0 \<and>
            (\<forall>t'. rayA r * t'\<^sup>2 + rayB r * t' + rayC radius r = 0 \<longrightarrow>
                  (- rayB r - sqrt (rayDiscriminant radius r)) / (2 * rayA r) \<le> t') \<and>
            vlength (resolveCursor radius camPos r) = radius) \<and>
         (rayDiscriminant radius r < 0 \<longrightarrow>
            resolveCursor radius camPos r =
              vadd camPos
                (multiplyScalar
                   (normalize (vsub (vadd (origin r) (multiplyScalar (direction r) 5)) camPos))
                   radius) \<and>
            (vadd (origin r) (multiplyScalar (direction r) 5) \<noteq> camPos \<longrightarrow>
               vlength (vsub (resolveCursor radius camPos r) camPos) = radius))"
proof (intro conjI impI)
  let ?a = "rayA r" and ?b = "rayB r" and ?c = "rayC radius r"
  let ?t = "(- ?b - sqrt (rayDiscriminant radius r)) / (2 * ?a)"
  have apos: "0 < ?a"
    using assms(1) dot_nonneg[of "direction r"] vec3_zero_iff[of "direction r"]
    by (simp add: rayA_def less_le)
  {
    assume d: "0 \<le> rayDiscriminant radius r"
    then have d': "0 \<le> ?b * ?b - 4 * ?a * ?c" by (simp add: rayDiscriminant_def)
    show res: "resolveCursor radius camPos r = vadd (origin r) (multiplyScalar (direction r) ?t)"
      using d by (simp add: resolveCursor_def Let_def rayDiscriminant_def rayA_def rayB_def rayC_def)
    show root: "?a * ?t\<^sup>2 + ?b * ?t + ?c = 0"
      using nearer_root(1)[OF apos d'] by (simp add: rayDiscriminant_def)
    show "\<forall>t'. ?a * t'\<^sup>2 + ?b * t' + ?c = 0 \<longrightarrow> ?t \<le> t'"
      using nearer_root(2)[OF apos d'] by (simp add: rayDiscriminant_def)
    have "dot (resolveCursor radius camPos r) (resolveCursor radius camPos r) =
          ?a * ?t\<^sup>2 + ?b * ?t + ?c + radius * radius"
      unfolding res dot_vadd_multiplyScalar by (simp add: rayA_def rayB_def rayC_def)
    also have "\<dots> = radius\<^sup>2" unfolding root by (simp add: power2_eq_square)
    finally show "vlength (resolveCursor radius camPos r) = radius"
      using assms(2) by (simp add: vlength_def)
  }
  {
    assume d: "rayDiscriminant radius r < 0"
    let ?v = "vsub (vadd (origin r) (multiplyScalar (direction r) 5)) camPos"
    show res: "resolveCursor radius camPos r = vadd camPos (multiplyScalar (normalize ?v) radius)"
      using d by (simp add: resolveCursor_def Let_def rayDiscriminant_def rayA_def rayB_def rayC_def)
    assume ne: "vadd (origin r) (multiplyScalar (direction r) 5) \<noteq> camPos"
    have "?v \<noteq> Vec3 0 0 0"
    proof
      assume "?v = Vec3 0 0 0"
      then have "vadd (origin r) (multiplyScalar (direction r) 5) = camPos"
        by (cases "vadd (origin r) (multiplyScalar (direction r) 5)"; cases camPos)
          (simp add: vsub_def)
      then show False using ne by simp
    qed
    then have "vlength (normalize ?v) = 1" by (rule vlength_normalize)
    then show "vlength (vsub (resolveCursor radius camPos r) camPos) = radius"
      unfolding res vsub_vadd_cancel using assms(2) by (simp add: vlength_multiplyScalar)
  }
qed

theorem resolveCursor_postcondition_witness:
  "direction hitRay \<noteq> Vec3 0 0 0 \<and> (0::real) < 2 \<and> 0 \<le> rayDiscriminant 2 hitRay \<and>
   vlength (resolveCursor 2 (Vec3 0 5 0) hitRay) = 2 \<and>
   direction missRay \<noteq> Vec3 0 0 0 \<and> rayDiscriminant 2 missRay < 0 \<and>
   vadd (origin missRay) (multiplyScalar (direction missRay) 5) \<noteq> Vec3 0 5 0 \<and>
   vlength (vsub (resolveCursor 2 (Vec3 0 5 0) missRay) (Vec3 0 5 0)) = 2"
proof -
  have h1: "direction hitRay \<noteq> Vec3 0 0 0" "direction missRay \<noteq> Vec3 0 0 0"
    by (simp_all add: hitRay_def missRay_def)
  have h2: "(0::real) < 2" by simp
  have h3: "0 \<le> rayDiscriminant 2 hitRay" "rayDiscriminant 2 missRay < 0"
    by (simp_all add: rayDiscriminant_def rayA_def rayB_def rayC_def dot_def hitRay_def
        missRay_def)
  have h4: "vadd (origin missRay) (multiplyScalar (direction missRay) 5) \<noteq> Vec3 0 5 0"
    by (simp add: missRay_def vadd_def multiplyScalar_def)
  show ?thesis
    using h1 h2 h3 h4
      resolveCursor_postcondition[OF h1(1) h2, of "Vec3 0 5 0"]
      resolveCursor_postcondition[OF h1(2) h2, of "Vec3 0 5 0"]
    by blast
qed

section \<open>The exclusion boundary\<close>

lemma vadd_vsub_cancel: "vadd a (vsub b a) = b"
  by (cases a; cases b) (simp add: vsub_def vadd_def)

lemma exclusion_placement:
  fixes p :: pointer and lastP :: "pointer option" and cw :: vec3 and k :: nat
    and t :: "bool list"
  assumes sz: "sized ps" and i: "i < DOT_COUNT ps" and nk: "\<not> kickProgress ps i < 1"
    and pos: "0 < distToCursor ps pts ic i" and inside: "distToCursor ps pts ic i < cursorRadius ps"
    and inv: "\<forall>v. applyQuat pts (applyInvQuat pts v) = v"
  defines "ps' \<equiv> fst (spreadDot pts p lastP cw ic i (ps, k, t))"
  shows "spreadOffset ps' i =
           vsub (applyInvQuat pts
                   (vadd ic (multiplyScalar
                      (normalize (vsub (applyQuat pts (originalPosition ps i)) ic))
                      (cursorRadius ps + 0.001))))
             (originalPosition ps i)"
    and "vlength (vsub (applyQuat pts (vadd (originalPosition ps i) (spreadOffset ps' i))) ic) =
           cursorRadius ps + 0.001"
    and "pointerForce p lastP > 0.5 \<and> k < 2 \<Longrightarrow>
           kickStart ps' i = spreadOffset ps' i \<and> kickProgress ps' i = 0"
    and "\<not> (pointerForce p lastP > 0.5 \<and> k < 2) \<Longrightarrow>
           kickProgress ps' i = kickProgress ps i \<and> kickStart ps' i = kickStart ps i"
proof -
  let ?tc = "vsub (applyQuat pts (originalPosition ps i)) ic"
  let ?esw = "vadd ic (multiplyScalar (normalize ?tc) (cursorRadius ps + 0.001))"
  have len: "i * 3 + 2 < length (spreadOffsets ps)" "i < length (spreadKickT ps)"
    "i < length (spreadKickStart ps)"
    using sz i by (simp_all add: sized_def)
  have d: "vlength ?tc < RADIUS ps * 0.38"
    using inside by (simp add: distToCursor_def cursorRadius_def)
  have d': "vlength (vsub (applyQuat pts (Vec3 (originalPositions ps ! (i * 3))
              (originalPositions ps ! (i * 3 + 1)) (originalPositions ps ! (i * 3 + 2)))) ic)
            < RADIUS ps * 0.38"
    using d by (simp add: originalPosition_def triple_def)
  show off: "spreadOffset ps' i = vsub (applyInvQuat pts ?esw) (originalPosition ps i)"
    using nk d' len
    by (simp add: ps'_def spreadDot_def Let_def kickProgress_def spreadOffset_def
        triple_update_self originalPosition_def triple_def cursorRadius_def vsub_def)
  have tc: "?tc \<noteq> Vec3 0 0 0"
    using pos by (auto simp: distToCursor_def vlength_zero_iff[symmetric])
  have cr: "0 < cursorRadius ps" using pos inside by simp
  have "vsub (applyQuat pts (vadd (originalPosition ps i) (spreadOffset ps' i))) ic =
        multiplyScalar (normalize ?tc) (cursorRadius ps + 0.001)"
    unfolding off vadd_vsub_cancel using inv by (simp add: vsub_vadd_cancel)
  then show "vlength (vsub (applyQuat pts (vadd (originalPosition ps i) (spreadOffset ps' i))) ic) =
           cursorRadius ps + 0.001"
    using cr by (simp add: vlength_multiplyScalar vlength_normalize[OF tc])
  show "kickStart ps' i = spreadOffset ps' i \<and> kickProgress ps' i = 0"
    if "pointerForce p lastP > 0.5 \<and> k < 2"
    using that nk d' len
    by (simp add: ps'_def spreadDot_def Let_def kickProgress_def spreadOffset_def kickStart_def
        triple_update_self)
  show "kickProgress ps' i = kickProgress ps i \<and> kickStart ps' i = kickStart ps i"
    if "\<not> (pointerForce p lastP > 0.5 \<and> k < 2)"
    using that nk d' len
    by (auto simp: ps'_def spreadDot_def Let_def kickProgress_def kickStart_def)
qed

lemma sqrt_9216_625: "sqrt (9216 / 625) = 96 / 25"
  by (rule real_sqrt_unique) (simp_all add: power2_eq_square)

lemma ex_cursor_press:
  "cursorWorldOf sphere2 topCamera 1300 1300 (Pointer 832 650) = Vec3 (14 / 25) (48 / 25) 0"
  by (simp add: cursorWorldOf_def mouseNDC_def topCamera_def resolveCursor_def Let_def dot_def
      sphere2_def vadd_def multiplyScalar_def sqrt_9216_625)

lemma ex_press_inside:
  "0 < distToCursor sphere2 stillPoints (Vec3 (14 / 25) (48 / 25) 0) 0"
  "distToCursor sphere2 stillPoints (Vec3 (14 / 25) (48 / 25) 0) 0 < cursorRadius sphere2"
proof -
  have d: "distToCursor sphere2 stillPoints (Vec3 (14 / 25) (48 / 25) 0) 0 = sqrt (8 / 25)"
    by (simp add: ex_dist(1)[OF refl] power2_eq_square)
  have "sqrt (8 / 25) < (0.76::real)"
    by (subst sqrt_less_iff_sq; simp add: power2_eq_square)
  then show "distToCursor sphere2 stillPoints (Vec3 (14 / 25) (48 / 25) 0) 0 < cursorRadius sphere2"
    unfolding d ex_dist(2)[OF refl] .
  show "0 < distToCursor sphere2 stillPoints (Vec3 (14 / 25) (48 / 25) 0) 0"
    unfolding d by simp
qed

lemma ex_press_hyps:
  "\<not> kickProgress sphere2 0 < 1" "\<forall>v. applyQuat stillPoints (applyInvQuat stillPoints v) = v"
  by (simp_all add: kickProgress_def sphere2_def stillPoints_def)

text \<open>
  Claim C9, as stated, fails. In the first step of the frame after the pointer comes to
  rest at \<open>(14/25, 48/25, 0)\<close>, inside the exclusion zone of the north pole, the pole is
  snapped to distance \<open>CURSOR_RADIUS + 0.001 = 0.761\<close> from the cursor, not to
  \<open>CURSOR_RADIUS = 0.38 * 2 = 0.76\<close>.
\<close>

theorem snapped_point_is_off_the_cursor_radius:
  "cursorWorldOf sphere2 topCamera 1300 1300 (Pointer 832 650) = Vec3 (14 / 25) (48 / 25) 0 \<and>
   distToCursor sphere2 stillPoints (Vec3 (14 / 25) (48 / 25) 0) 0 < cursorRadius sphere2 \<and>
   vlength (vsub (applyQuat stillPoints
       (vadd (originalPosition sphere2 0)
          (spreadOffset (fst (spreadDot stillPoints (Pointer 832 650) None
               (Vec3 (14 / 25) (48 / 25) 0) (Vec3 (14 / 25) (48 / 25) 0) 0
               (sphere2, 0, [False, False]))) 0)))
     (Vec3 (14 / 25) (48 / 25) 0)) \<noteq> 0.38 * RADIUS sphere2"
proof -
  have i: "0 < DOT_COUNT sphere2" by (simp add: sphere2_count)
  have "vlength (vsub (applyQuat stillPoints
       (vadd (originalPosition sphere2 0)
          (spreadOffset (fst (spreadDot stillPoints (Pointer 832 650) None
               (Vec3 (14 / 25) (48 / 25) 0) (Vec3 (14 / 25) (48 / 25) 0) 0
               (sphere2, 0, [False, False]))) 0)))
     (Vec3 (14 / 25) (48 / 25) 0)) = cursorRadius sphere2 + 0.001"
    by (rule exclusion_placement(2)[OF sphere2_sized(1) i ex_press_hyps(1) ex_press_inside
          ex_press_hyps(2)])
  moreover have "cursorRadius sphere2 + 0.001 \<noteq> 0.38 * RADIUS sphere2"
    by (simp add: cursorRadius_def)
  ultimately show ?thesis using ex_cursor_press ex_press_inside(2) by simp
qed

text \<open>
  Claim C9, amended. When a point that is not kicking lies inside the exclusion zone of a
  cursor sample, but not on the sample itself, and the inverse quaternion undoes the
  rotation, the offset is set (on a kick and on a snap alike) so that the displaced point,
  rotated back into the world, lies at distance \<open>CURSOR_RADIUS + 0.001\<close> from the cursor
  sample, with \<open>CURSOR_RADIUS = 0.38 * radius\<close>: the offset is the inverse rotation of that
  boundary point minus the original position. On a kick \<open>kickStart\<close> is the same offset
  and \<open>kickProgress\<close> is 0.
\<close>

theorem snapped_point_is_just_outside_the_zone:
  assumes "sized ps" and "i < DOT_COUNT ps" and "\<not> kickProgress ps i < 1"
    and "0 < distToCursor ps pts ic i" and "distToCursor ps pts ic i < cursorRadius ps"
    and "\<forall>v. applyQuat pts (applyInvQuat pts v) = v"
  shows "cursorRadius ps = 0.38 * RADIUS ps \<and>
         vlength (vsub (applyQuat pts
             (vadd (originalPosition ps i)
                (spreadOffset (fst (spreadDot pts p lastP cw ic i (ps, k, t))) i))) ic) =
           cursorRadius ps + 0.001 \<and>
         spreadOffset (fst (spreadDot pts p lastP cw ic i (ps, k, t))) i =
           vsub (applyInvQuat pts
                   (vadd ic (multiplyScalar
                      (normalize (vsub (applyQuat pts (originalPosition ps i)) ic))
                      (cursorRadius ps + 0.001))))
             (originalPosition ps i) \<and>
         (pointerForce p lastP > 0.5 \<and> k < 2 \<longrightarrow>
            kickStart (fst (spreadDot pts p lastP cw ic i (ps, k, t))) i =
              spreadOffset (fst (spreadDot pts p lastP cw ic i (ps, k, t))) i \<and>
            kickProgress (fst (spreadDot pts p lastP cw ic i (ps, k, t))) i = 0)"
  using exclusion_placement(1,2,3)[OF assms, where p = p and lastP = lastP and cw = cw
      and k = k and t = t]
  by (simp add: cursorRadius_def)

theorem snapped_point_is_just_outside_the_zone_witness:
  "sized sphere2 \<and> 0 < DOT_COUNT sphere2 \<and> \<not> kickProgress sphere2 0 < 1 \<and>
   0 < distToCursor sphere2 stillPoints (Vec3 (- 14 / 25) (48 / 25) 0) 0 \<and>
   distToCursor sphere2 stillPoints (Vec3 (- 14 / 25) (48 / 25) 0) 0 < cursorRadius sphere2 \<and>
   (\<forall>v. applyQuat stillPoints (applyInvQuat stillPoints v) = v) \<and>
   pointerForce (Pointer 468 650) (Some (Pointer 832 650)) > 0.5 \<and> (0::nat) < 2 \<and>
   vlength (vsub (applyQuat stillPoints
       (vadd (originalPosition sphere2 0)
          (spreadOffset (fst (spreadDot stillPoints (Pointer 468 650) (Some (Pointer 832 650))
               (Vec3 (- 14 / 25) (48 / 25) 0) (Vec3 (- 14 / 25) (48 / 25) 0) 0
               (sphere2, 0, [False, False]))) 0)))
     (Vec3 (- 14 / 25) (48 / 25) 0)) = cursorRadius sphere2 + 0.001 \<and>
   kickProgress (fst (spreadDot stillPoints (Pointer 468 650) (Some (Pointer 832 650))
               (Vec3 (- 14 / 25) (48 / 25) 0) (Vec3 (- 14 / 25) (48 / 25) 0) 0
               (sphere2, 0, [False, False]))) 0 = 0"
proof -
  have i: "0 < DOT_COUNT sphere2" by (simp add: sphere2_count)
  have d: "distToCursor sphere2 stillPoints (Vec3 (- 14 / 25) (48 / 25) 0) 0 = sqrt (8 / 25)"
    by (simp add: ex_dist(1)[OF refl] power2_eq_square)
  have lt: "sqrt (8 / 25) < (0.76::real)"
    by (subst sqrt_less_iff_sq; simp add: power2_eq_square)
  have h4: "0 < distToCursor sphere2 stillPoints (Vec3 (- 14 / 25) (48 / 25) 0) 0"
    unfolding d by simp
  have h5: "distToCursor sphere2 stillPoints (Vec3 (- 14 / 25) (48 / 25) 0) 0 < cursorRadius sphere2"
    unfolding d ex_dist(2)[OF refl] by (rule lt)
  have f: "pointerForce (Pointer 468 650) (Some (Pointer 832 650)) > 0.5"
  proof -
    have "(5 / 2 :: real) < sqrt 132496"
      by (subst sqrt_greater_iff_sq) (simp_all add: power2_eq_square)
    then show ?thesis by (simp add: pointerForce_def Let_def)
  qed
  have k: "(0::nat) < 2" by simp
  show ?thesis
    using sphere2_sized(1) i ex_press_hyps h4 h5 f k
      snapped_point_is_just_outside_the_zone[OF sphere2_sized(1) i ex_press_hyps(1) h4 h5
        ex_press_hyps(2), where p = "Pointer 468 650" and lastP = "Some (Pointer 832 650)"
        and cw = "Vec3 (- 14 / 25) (48 / 25) 0" and k = 0 and t = "[False, False]"]
    by blast
qed

section \<open>The return home\<close>

lemma l1norm_nonneg: "0 \<le> l1norm v"
  by (simp add: l1norm_def)

lemma vlength_le_l1norm: "vlength v \<le> l1norm v"
proof -
  have "dot v v \<le> (l1norm v)\<^sup>2"
  proof -
    have "(l1norm v)\<^sup>2 = dot v v + 2 * (\<bar>vx v\<bar> * \<bar>vy v\<bar> + \<bar>vx v\<bar> * \<bar>vz v\<bar> + \<bar>vy v\<bar> * \<bar>vz v\<bar>)"
      by (simp add: l1norm_def dot_def power2_eq_square algebra_simps)
    moreover have "0 \<le> \<bar>vx v\<bar> * \<bar>vy v\<bar> + \<bar>vx v\<bar> * \<bar>vz v\<bar> + \<bar>vy v\<bar> * \<bar>vz v\<bar>"
      by (intro add_nonneg_nonneg mult_nonneg_nonneg) simp_all
    ultimately show ?thesis by simp
  qed
  then show ?thesis
    unfolding vlength_def by (intro real_le_lsqrt) (simp_all add: l1norm_nonneg)
qed

lemma offsetBound_nonneg: "0 \<le> offsetBound d"
  by (cases d) (simp add: offsetBound_def l1norm_def le_max_iff_disj)

lemma l1norm_le_offsetBound: "l1norm (fst (snd (snd d))) \<le> offsetBound d"
  by (cases d) (simp add: offsetBound_def)

lemma easeInOutSine_range: "0 \<le> easeInOutSine x" "easeInOutSine x \<le> 1"
proof -
  have "- 1 \<le> cos (pi * x)" "cos (pi * x) \<le> 1" by simp_all
  then show "0 \<le> easeInOutSine x" "easeInOutSine x \<le> 1"
    by (simp_all add: easeInOutSine_def)
qed

lemma l1norm_kick: "0 \<le> e \<Longrightarrow> e \<le> 1 \<Longrightarrow>
    l1norm (vadd ks (multiplyScalar kd e)) \<le> l1norm ks + l1norm kd"
proof -
  assume e: "0 \<le> e" "e \<le> 1"
  have c: "\<bar>a + b * e\<bar> \<le> \<bar>a\<bar> + \<bar>b\<bar>" for a b :: real
  proof -
    have "\<bar>b * e\<bar> = \<bar>b\<bar> * e" using e by (simp add: abs_mult)
    also have "\<dots> \<le> \<bar>b\<bar> * 1" using e by (intro mult_left_mono) simp_all
    finally show ?thesis using abs_triangle_ineq[of a "b * e"] by linarith
  qed
  show ?thesis
    using c[of "vx ks" "vx kd"] c[of "vy ks" "vy kd"] c[of "vz ks" "vz kd"]
    by (simp add: l1norm_def vadd_def multiplyScalar_def)
qed

lemma l1norm_scale: "l1norm (multiplyScalar v 0.97) = 0.97 * l1norm v"
  by (simp add: l1norm_def multiplyScalar_def abs_mult)

lemma ceiling_step:
  fixes x c :: real
  assumes "0 < c" "0 < x"
  shows "nat \<lceil>(x - c) / c\<rceil> < nat \<lceil>x / c\<rceil>"
proof -
  have "(x - c) / c = x / c - 1" using assms by (simp add: field_simps)
  then have "\<lceil>(x - c) / c\<rceil> = \<lceil>x / c\<rceil> - 1" by simp
  moreover have "0 < \<lceil>x / c\<rceil>" using assms by (simp add: zero_less_ceiling)
  ultimately show ?thesis by simp
qed

lemma kick_delay_pos: "kt < 1 \<Longrightarrow> 0 < nat \<lceil>(1 - kt) / 0.035\<rceil>" for kt :: real
  by (simp add: zero_less_ceiling)

lemma timer_delay_pos: "0 < tm \<Longrightarrow> 0 < nat \<lceil>tm / 0.017\<rceil>" for tm :: real
  by (simp add: zero_less_ceiling)

lemma settleDelay_zero_iff:
  "settleDelay (kt, tm, off, ks, kd) = 0 \<longleftrightarrow> \<not> kt < 1 \<and> \<not> 0 < tm"
  using kick_delay_pos[of kt] timer_delay_pos[of tm] by (auto simp: settleDelay_def)

lemma quietFrame_settling:
  assumes "0 < settleDelay d"
  shows "settleDelay (spec_quietFrame pass d) < settleDelay d"
    and "offsetBound (spec_quietFrame pass d) \<le> offsetBound d"
proof -
  obtain kt tm off ks kd where d: "d = (kt, tm, off, ks, kd)" by (cases d)
  let ?T = "\<lambda>tm::real. if tm > 0 then nat \<lceil>tm / 0.017\<rceil> else 0"
  let ?K = "\<lambda>kt::real. if kt < 1 then nat \<lceil>(1 - kt) / 0.035\<rceil> else 0"
  have both: "settleDelay (spec_quietFrame pass d) < settleDelay d \<and>
              offsetBound (spec_quietFrame pass d) \<le> offsetBound d"
  proof (cases "kt < 1")
    case True
    let ?kt' = "min 1 (kt + 0.035)"
    let ?off' = "vadd ks (multiplyScalar kd (easeInOutSine ?kt'))"
    have q: "spec_quietFrame pass d = (?kt', if pass then 0 else tm, ?off', ks, kd)"
      using True by (simp add: spec_quietFrame_def spec_pointStep_def d)
    have K: "?K ?kt' < ?K kt"
    proof (cases "kt + 0.035 < 1")
      case True
      have "nat \<lceil>((1 - kt) - 0.035) / 0.035\<rceil> < nat \<lceil>(1 - kt) / 0.035\<rceil>"
        using \<open>kt < 1\<close> by (intro ceiling_step) simp_all
      moreover have "(1 - kt) - 0.035 = 1 - (kt + 0.035)" by simp
      ultimately show ?thesis using True \<open>kt < 1\<close> by (simp add: min_def)
    next
      case False
      then show ?thesis using kick_delay_pos[OF \<open>kt < 1\<close>] \<open>kt < 1\<close> by (simp add: min_def)
    qed
    have T: "?T (if pass then 0 else tm) \<le> ?T tm" by (cases pass) simp_all
    have "settleDelay (spec_quietFrame pass d) = ?K ?kt' + ?T (if pass then 0 else tm)"
      unfolding q settleDelay_def prod.case by (rule refl)
    moreover have "settleDelay d = ?K kt + ?T tm"
      unfolding d settleDelay_def prod.case by (rule refl)
    ultimately have delay: "settleDelay (spec_quietFrame pass d) < settleDelay d"
      using add_less_le_mono[OF K T] by (simp only:)
    have "l1norm ?off' \<le> l1norm ks + l1norm kd"
      by (intro l1norm_kick easeInOutSine_range)
    moreover have "0 \<le> l1norm ks + l1norm kd" by (simp add: l1norm_nonneg)
    ultimately have "offsetBound (spec_quietFrame pass d) \<le> l1norm ks + l1norm kd"
      unfolding q by (simp add: offsetBound_def)
    moreover have "l1norm ks + l1norm kd \<le> offsetBound d"
      using True by (simp add: d offsetBound_def)
    ultimately show ?thesis using delay by simp
  next
    case False
    then have tm: "0 < tm" using assms settleDelay_zero_iff[of kt tm off ks kd] by (simp add: d)
    let ?tm' = "if pass then 0 else max 0 (tm - 0.017)"
    have q: "spec_quietFrame pass d = (kt, ?tm', off, ks, kd)"
      using False tm by (simp add: spec_quietFrame_def spec_pointStep_def d)
    have T: "?T ?tm' < ?T tm"
    proof (cases "0 < ?tm'")
      case True
      then have e: "?tm' = tm - 0.017" by (simp add: max_def split: if_splits)
      have "nat \<lceil>(tm - 0.017) / 0.017\<rceil> < nat \<lceil>tm / 0.017\<rceil>"
        using tm by (intro ceiling_step) simp_all
      then show ?thesis using True tm unfolding e by simp
    next
      case False
      then show ?thesis using timer_delay_pos[OF tm] tm by simp
    qed
    have "settleDelay (spec_quietFrame pass d) = ?K kt + ?T ?tm'"
      unfolding q settleDelay_def prod.case by (rule refl)
    moreover have "settleDelay d = ?K kt + ?T tm"
      unfolding d settleDelay_def prod.case by (rule refl)
    ultimately have "settleDelay (spec_quietFrame pass d) < settleDelay d"
      using add_le_less_mono[OF order_refl T, of "?K kt"] by (simp only:)
    moreover have "offsetBound (spec_quietFrame pass d) = offsetBound d"
      unfolding q by (simp add: d offsetBound_def)
    ultimately show ?thesis by simp
  qed
  then show "settleDelay (spec_quietFrame pass d) < settleDelay d"
    and "offsetBound (spec_quietFrame pass d) \<le> offsetBound d"
    by simp_all
qed

lemma quietFrame_decay:
  assumes "settleDelay d = 0"
  shows "settleDelay (spec_quietFrame pass d) = 0"
    and "offsetBound (spec_quietFrame pass d) = 0.97 * offsetBound d"
proof -
  obtain kt tm off ks kd where d: "d = (kt, tm, off, ks, kd)" by (cases d)
  have r: "\<not> kt < 1" "\<not> 0 < tm" using assms settleDelay_zero_iff[of kt tm off ks kd] by (simp_all add: d)
  have q: "spec_quietFrame pass d = (kt, if pass then 0 else tm, multiplyScalar off 0.97, ks, kd)"
    using r by (simp add: spec_quietFrame_def spec_pointStep_def d)
  show "settleDelay (spec_quietFrame pass d) = 0"
    unfolding q using r by (simp add: settleDelay_zero_iff)
  have m: "max (0.97 * l1norm off) 0 = 0.97 * max (l1norm off) 0"
    using l1norm_nonneg[of off] by (simp add: max_def)
  show "offsetBound (spec_quietFrame pass d) = 0.97 * offsetBound d"
    unfolding q unfolding d offsetBound_def prod.case l1norm_scale using r m by simp
qed

text \<open>Quiet frames: the bound decays by 0.97 per frame once the delay has passed.\<close>

lemma quiet_frames_bound:
  assumes "sized (particleSphere svc)" "i < DOT_COUNT (particleSphere svc)"
    and "list_all (\<lambda>fr. noProximity (particleSphere svc) fr i) frs"
  shows "offsetBound (dotState (particleSphere (runFrames svc frs)) i) \<le>
           offsetBound (dotState (particleSphere svc) i) *
             0.97 ^ (length frs - settleDelay (dotState (particleSphere svc) i))"
  using assms
proof (induction frs arbitrary: svc)
  case Nil
  then show ?case by (simp add: runFrames_Nil)
next
  case (Cons fr frs)
  let ?d = "dotState (particleSphere svc) i"
  let ?svc1 = "fst (update svc fr)"
  let ?d1 = "dotState (particleSphere ?svc1) i"
  have lay: "layout (particleSphere ?svc1) = layout (particleSphere svc)"
    by (rule update_general)
  have sz1: "sized (particleSphere ?svc1)" using Cons.prems(1) by (rule update_general)
  have i1: "i < DOT_COUNT (particleSphere ?svc1)"
    using Cons.prems(2) layout_cong(1)[OF lay] by simp
  have q1: "list_all (\<lambda>fr. noProximity (particleSphere ?svc1) fr i) frs"
    using Cons.prems(3) by (simp add: layout_cong(8)[OF lay])
  have d1: "?d1 = spec_quietFrame (pointerPass fr) ?d"
    using Cons.prems by (intro update_quiet) simp_all
  have IH: "offsetBound (dotState (particleSphere (runFrames ?svc1 frs)) i) \<le>
              offsetBound ?d1 * 0.97 ^ (length frs - settleDelay ?d1)"
    by (rule Cons.IH[OF sz1 i1 q1])
  have "offsetBound ?d1 * 0.97 ^ (length frs - settleDelay ?d1) \<le>
        offsetBound ?d * 0.97 ^ (length (fr # frs) - settleDelay ?d)"
  proof (cases "settleDelay ?d = 0")
    case True
    show ?thesis
      unfolding d1 using quietFrame_decay[OF True, of "pointerPass fr"] True by simp
  next
    case False
    then have pos: "0 < settleDelay ?d" by simp
    note s = quietFrame_settling[OF pos, of "pointerPass fr"]
    have e: "length (fr # frs) - settleDelay ?d \<le> length frs - settleDelay ?d1"
      using s(1) unfolding d1 by simp
    have "(0.97::real) ^ (length frs - settleDelay ?d1) \<le> 0.97 ^ (length (fr # frs) - settleDelay ?d)"
      using e by (intro power_decreasing) simp_all
    then show ?thesis
      using s(2) offsetBound_nonneg[of ?d1] unfolding d1
      by (intro mult_mono) (simp_all add: offsetBound_nonneg)
  qed
  then show ?case using IH unfolding runFrames_Cons by linarith
qed

lemma decay_reaches:
  fixes B e :: real
  assumes "0 \<le> B" "0 < e"
  shows "\<exists>k. B * 0.97 ^ k < e"
proof (cases "B = 0")
  case True
  then show ?thesis using assms(2) by simp
next
  case False
  then have B: "0 < B" using assms(1) by simp
  then have "0 < e / B" using assms(2) by simp
  then obtain k where "(0.97::real) ^ k < e / B"
    using real_arch_pow_inv[of "e / B" "0.97"] by auto
  then have "B * 0.97 ^ k < e" using B by (simp add: field_simps)
  then show ?thesis by blast
qed

text \<open>
  Claim C8. (1) In a frame whose pointer pass runs, a point that no interpolation sub-step
  touched ends the frame with \<open>returnTimer = 0\<close>. (2) For a point with \<open>kickProgress = 1\<close>
  and \<open>returnTimer = 0\<close>, \<open>animateSpreadReturn\<close> multiplies each offset component by 0.97,
  and that is the offset at the end of the frame when the pointer is not in proximity.
  (3) For every \<open>\<epsilon> > 0\<close> there is a number of frames after which the offset of a point is
  within \<open>\<epsilon>\<close> of zero, whenever none of the frames has the pointer in proximity of the
  point: \<open>settleDelay\<close> frames for the kick and the timer to run out, and \<open>k\<close> more for the
  decay, for any \<open>k\<close> with \<open>offsetBound * 0.97 ^ k < \<epsilon>\<close>, and such \<open>k\<close> exist.
\<close>

theorem untouched_point_returns_home:
  assumes "sized (particleSphere svc)" and "i < DOT_COUNT (particleSphere svc)" and "0 < \<epsilon>"
  shows "(\<forall>p pts cam.
            pointer fr = Some p \<and> points fr = Some pts \<and> camera fr = Some cam \<and>
            \<not> snd (spreadSteps (animateSpreadReturn (particleSphere svc)) p (lastPointer fr)
                     (lastPointerEvent fr) pts cam (innerWidth fr) (innerHeight fr)) ! i \<longrightarrow>
            returnTimer (particleSphere (fst (update svc fr))) i = 0) \<and>
         (kickProgress (particleSphere svc) i = 1 \<and> returnTimer (particleSphere svc) i = 0 \<longrightarrow>
            spreadOffset (animateSpreadReturn (particleSphere svc)) i =
              multiplyScalar (spreadOffset (particleSphere svc) i) 0.97 \<and>
            (noProximity (particleSphere svc) fr i \<longrightarrow>
               spreadOffset (particleSphere (fst (update svc fr))) i =
                 multiplyScalar (spreadOffset (particleSphere svc) i) 0.97)) \<and>
         (\<exists>k. offsetBound (dotState (particleSphere svc) i) * 0.97 ^ k < \<epsilon>) \<and>
         (\<forall>k frs.
            offsetBound (dotState (particleSphere svc) i) * 0.97 ^ k < \<epsilon> \<and>
            settleDelay (dotState (particleSphere svc) i) + k \<le> length frs \<and>
            list_all (\<lambda>fr. noProximity (particleSphere svc) fr i) frs \<longrightarrow>
            vlength (spreadOffset (particleSphere (runFrames svc frs)) i) < \<epsilon>)"
proof (intro conjI allI impI)
  let ?ps = "particleSphere svc"
  let ?ps1 = "animateSpreadReturn ?ps"
  let ?d = "dotState ?ps i"
  have sz1: "sized ?ps1" using assms(1) by (rule animateSpreadReturn_general)
  have i1: "i < DOT_COUNT ?ps1"
    using assms(2) layout_cong(1)[OF animateSpreadReturn_general(1)[of ?ps]] by simp
  {
    fix p pts cam
    assume a: "pointer fr = Some p \<and> points fr = Some pts \<and> camera fr = Some cam \<and>
            \<not> snd (spreadSteps ?ps1 p (lastPointer fr) (lastPointerEvent fr) pts cam
                     (innerWidth fr) (innerHeight fr)) ! i"
    have u: "particleSphere (fst (update svc fr)) =
        spreadDots ?ps1 p (lastPointer fr) (lastPointerEvent fr) pts cam (innerWidth fr)
          (innerHeight fr)"
      using a by (intro update_pass) simp_all
    show "returnTimer (particleSphere (fst (update svc fr))) i = 0"
      unfolding u
      using a spreadDots_point(1)[OF sz1 i1, of p "lastPointer fr" "lastPointerEvent fr" pts cam
          "innerWidth fr" "innerHeight fr"]
      by (simp add: dotState_def split: prod.splits)
  }
  {
    assume r: "kickProgress ?ps i = 1 \<and> returnTimer ?ps i = 0"
    have "dotState ?ps1 i = spec_pointStep ?d"
      by (rule animateSpreadReturn_point(1)[OF assms(1,2)])
    then show "spreadOffset ?ps1 i = multiplyScalar (spreadOffset ?ps i) 0.97"
      using r by (simp add: dotState_def spec_pointStep_def)
    assume "noProximity ?ps fr i"
    then have "dotState (particleSphere (fst (update svc fr))) i =
               spec_quietFrame (pointerPass fr) ?d"
      by (intro update_quiet[OF assms(1,2)]) simp
    then show "spreadOffset (particleSphere (fst (update svc fr))) i =
                 multiplyScalar (spreadOffset ?ps i) 0.97"
      using r by (simp add: dotState_def spec_quietFrame_def spec_pointStep_def)
  }
  show "\<exists>k. offsetBound ?d * 0.97 ^ k < \<epsilon>"
    by (rule decay_reaches[OF offsetBound_nonneg assms(3)])
  {
    fix k frs
    assume a: "offsetBound ?d * 0.97 ^ k < \<epsilon> \<and> settleDelay ?d + k \<le> length frs \<and>
               list_all (\<lambda>fr. noProximity ?ps fr i) frs"
    let ?dn = "dotState (particleSphere (runFrames svc frs)) i"
    have b: "offsetBound ?dn \<le> offsetBound ?d * 0.97 ^ (length frs - settleDelay ?d)"
      using a by (intro quiet_frames_bound[OF assms(1,2)]) simp
    have "settleDelay ?d + k \<le> length frs" using a by blast
    then have "k \<le> length frs - settleDelay ?d" by arith
    then have "(0.97::real) ^ (length frs - settleDelay ?d) \<le> 0.97 ^ k"
      by (intro power_decreasing) simp_all
    then have "offsetBound ?d * 0.97 ^ (length frs - settleDelay ?d) \<le> offsetBound ?d * 0.97 ^ k"
      by (intro mult_left_mono offsetBound_nonneg)
    then have "offsetBound ?dn < \<epsilon>" using a b by linarith
    moreover have "vlength (spreadOffset (particleSphere (runFrames svc frs)) i) \<le> offsetBound ?dn"
      using vlength_le_l1norm[of "spreadOffset (particleSphere (runFrames svc frs)) i"]
        l1norm_le_offsetBound[of ?dn]
      by (simp add: dotState_def)
    ultimately show "vlength (spreadOffset (particleSphere (runFrames svc frs)) i) < \<epsilon>"
      by linarith
  }
qed

subsection \<open>A brushed field left alone\<close>

lemma heldSphere2_layout: "layout heldSphere2 = layout sphere2"
  by (simp add: layout_def heldSphere2_def)

lemma heldSphere2_sized: "sized heldSphere2"
  by (simp add: sized_def heldSphere2_def sphere2_def)

lemma equatorFrame_fields:
  "pointer equatorFrame = Some (Pointer 1300 650)" "points equatorFrame = Some stillPoints"
  "camera equatorFrame = Some topCamera" "lastPointer equatorFrame = None"
  "lastPointerEvent equatorFrame = True" "innerWidth equatorFrame = 1300"
  "innerHeight equatorFrame = 1300"
  by (simp_all add: equatorFrame_def idleFrame_def)

lemma ex_equator_far:
  assumes "layout ps = layout sphere2"
  shows "\<not> distToCursor ps stillPoints (Vec3 2 0 0) 0 < cursorRadius ps + 0.18"
    and "\<not> distToCursor ps stillPoints (Vec3 2 0 0) 1 < cursorRadius ps + 0.18"
proof -
  have d: "distToCursor ps stillPoints (Vec3 2 0 0) 0 = sqrt 8"
    "distToCursor ps stillPoints (Vec3 2 0 0) 1 = sqrt 8"
    using assms
    by (simp_all add: layout_def distToCursor_def originalPosition_def triple_def sphere2_def
        stillPoints_def vlength_def dot_def vsub_def)
  have c: "cursorRadius ps + 0.18 = 0.94"
    using assms by (simp add: layout_def cursorRadius_def sphere2_def)
  have "\<not> sqrt 8 < (0.94::real)"
    by (subst sqrt_less_iff_sq; simp add: power2_eq_square)
  then show "\<not> distToCursor ps stillPoints (Vec3 2 0 0) 0 < cursorRadius ps + 0.18"
    and "\<not> distToCursor ps stillPoints (Vec3 2 0 0) 1 < cursorRadius ps + 0.18"
    unfolding d c by simp_all
qed

lemma ex_equator_samples:
  assumes "layout ps = layout sphere2"
  shows "interpCursorAt (prevCursorWorldOf ps topCamera 1300 1300 None True)
           (cursorWorldOf ps topCamera 1300 1300 (Pointer 1300 650)) s = Vec3 2 0 0"
  by (simp add: interpCursorAt_def prevCursorWorldOf_def layout_cong(6)[OF assms]
      ex_cursor_equator)

lemma ex_equator_quiet:
  "noProximity heldSphere2 equatorFrame 0" "noProximity heldSphere2 equatorFrame 1"
  using ex_equator_far[OF heldSphere2_layout]
  by (simp_all add: noProximity_def equatorFrame_fields Let_def list_all_iff
      ex_equator_samples[OF heldSphere2_layout])

lemma ex_held_state:
  "dotState heldSphere2 0 = (1, 383 / 1000, Vec3 0 (2 / 5) 0, Vec3 0 0 0, Vec3 0 0 0)"
  "dotState heldSphere2 1 = (1, 0, Vec3 0 (- 2 / 5) 0, Vec3 0 0 0, Vec3 0 0 0)"
  by (simp_all add: dotState_def kickProgress_def returnTimer_def spreadOffset_def
      kickStart_def kickDirection_def triple_def heldSphere2_def sphere2_def)

lemma ex_held_measures:
  "settleDelay (dotState heldSphere2 0) = 23" "offsetBound (dotState heldSphere2 0) = 2 / 5"
  unfolding ex_held_state by (simp_all add: settleDelay_def offsetBound_def l1norm_def)

text \<open>
  The theorem at work on the brushed field, the pointer resting on the equator: the timer
  of point 0 goes from 0.383 to 0.366 and is reset to 0 in one frame; the offset of point 1
  goes from \<open>(0, - 0.4, 0)\<close> to \<open>(0, - 0.388, 0)\<close>; and after 23 + 23 frames the offset of
  point 0, of length 0.4 at the start, is shorter than 0.2.
\<close>

theorem untouched_point_returns_home_witness:
  "sized (particleSphere (newParticleInteractionService heldSphere2)) \<and>
   0 < DOT_COUNT (particleSphere (newParticleInteractionService heldSphere2)) \<and>
   1 < DOT_COUNT (particleSphere (newParticleInteractionService heldSphere2)) \<and>
   (0::real) < 1 / 5 \<and>
   pointer equatorFrame = Some (Pointer 1300 650) \<and> points equatorFrame = Some stillPoints \<and>
   camera equatorFrame = Some topCamera \<and>
   \<not> snd (spreadSteps
            (animateSpreadReturn (particleSphere (newParticleInteractionService heldSphere2)))
            (Pointer 1300 650) (lastPointer equatorFrame) (lastPointerEvent equatorFrame)
            stillPoints topCamera (innerWidth equatorFrame) (innerHeight equatorFrame)) ! 0 \<and>
   returnTimer (particleSphere (newParticleInteractionService heldSphere2)) 0 = 383 / 1000 \<and>
   returnTimer (animateSpreadReturn
      (particleSphere (newParticleInteractionService heldSphere2))) 0 = 366 / 1000 \<and>
   returnTimer (particleSphere
      (fst (update (newParticleInteractionService heldSphere2) equatorFrame))) 0 = 0 \<and>
   kickProgress (particleSphere (newParticleInteractionService heldSphere2)) 1 = 1 \<and>
   returnTimer (particleSphere (newParticleInteractionService heldSphere2)) 1 = 0 \<and>
   noProximity (particleSphere (newParticleInteractionService heldSphere2)) equatorFrame 1 \<and>
   spreadOffset (particleSphere (newParticleInteractionService heldSphere2)) 1 =
     Vec3 0 (- 2 / 5) 0 \<and>
   spreadOffset (animateSpreadReturn
      (particleSphere (newParticleInteractionService heldSphere2))) 1 = Vec3 0 (- 97 / 250) 0 \<and>
   spreadOffset (particleSphere
      (fst (update (newParticleInteractionService heldSphere2) equatorFrame))) 1 =
     Vec3 0 (- 97 / 250) 0 \<and>
   spreadOffset (particleSphere (newParticleInteractionService heldSphere2)) 0 =
     Vec3 0 (2 / 5) 0 \<and>
   offsetBound (dotState (particleSphere (newParticleInteractionService heldSphere2)) 0) = 2 / 5 \<and>
   settleDelay (dotState (particleSphere (newParticleInteractionService heldSphere2)) 0) = 23 \<and>
   offsetBound (dotState (particleSphere (newParticleInteractionService heldSphere2)) 0)
     * 0.97 ^ 23 < 1 / 5 \<and>
   settleDelay (dotState (particleSphere (newParticleInteractionService heldSphere2)) 0) + 23
     \<le> length (replicate 46 equatorFrame) \<and>
   list_all (\<lambda>fr. noProximity (particleSphere (newParticleInteractionService heldSphere2)) fr 0)
     (replicate 46 equatorFrame) \<and>
   vlength (spreadOffset (particleSphere
      (runFrames (newParticleInteractionService heldSphere2) (replicate 46 equatorFrame))) 0)
     < 1 / 5"
proof -
  let ?svc = "newParticleInteractionService heldSphere2"
  have ps: "particleSphere ?svc = heldSphere2"
    by (simp add: newParticleInteractionService_def)
  have sz: "sized (particleSphere ?svc)" unfolding ps by (rule heldSphere2_sized)
  have n: "DOT_COUNT heldSphere2 = 2" by (simp add: heldSphere2_def sphere2_def)
  have i0: "0 < DOT_COUNT (particleSphere ?svc)" and i1: "1 < DOT_COUNT (particleSphere ?svc)"
    unfolding ps by (simp_all add: n)
  have e: "(0::real) < 1 / 5" by simp
  let ?ps1 = "animateSpreadReturn (particleSphere ?svc)"
  have lay1: "layout ?ps1 = layout sphere2"
    unfolding ps using animateSpreadReturn_general(1)[of heldSphere2] heldSphere2_layout by simp
  have n1: "0 < DOT_COUNT ?ps1" using layout_cong(1)[OF lay1] by (simp add: sphere2_count)
  \<comment> \<open>part 1: the timer of the held point 0 runs, then is reset\<close>
  have t0: "returnTimer (particleSphere ?svc) 0 = 383 / 1000"
    unfolding ps using ex_held_state(1) by (simp add: dotState_def)
  have a0: "dotState ?ps1 0 = spec_pointStep (dotState (particleSphere ?svc) 0)"
    by (rule animateSpreadReturn_point(1)[OF sz i0])
  have t1: "returnTimer ?ps1 0 = 366 / 1000"
    using a0 unfolding ps ex_held_state by (simp add: dotState_def spec_pointStep_def)
  have untouched: "\<not> snd (spreadSteps ?ps1 (Pointer 1300 650) (lastPointer equatorFrame)
            (lastPointerEvent equatorFrame) stillPoints topCamera (innerWidth equatorFrame)
            (innerHeight equatorFrame)) ! 0"
    unfolding equatorFrame_fields
    using ex_equator_far(1)[OF lay1]
    by (intro spreadSteps_quiet(2)[OF n1]) (simp add: ex_equator_samples[OF lay1])
  \<comment> \<open>part 2: the displaced point 1 at rest decays\<close>
  have rest: "kickProgress (particleSphere ?svc) 1 = 1" "returnTimer (particleSphere ?svc) 1 = 0"
    "spreadOffset (particleSphere ?svc) 1 = Vec3 0 (- 2 / 5) 0"
    unfolding ps using ex_held_state(2) by (simp_all add: dotState_def)
  have q1: "noProximity (particleSphere ?svc) equatorFrame 1"
    unfolding ps by (rule ex_equator_quiet)
  have sc: "multiplyScalar (Vec3 0 (- 2 / 5) 0) 0.97 = Vec3 0 (- 97 / 250) 0"
    by (simp add: multiplyScalar_def)
  \<comment> \<open>part 3: point 0 over 46 frames\<close>
  have o0: "spreadOffset (particleSphere ?svc) 0 = Vec3 0 (2 / 5) 0"
    unfolding ps using ex_held_state(1) by (simp add: dotState_def)
  have m: "offsetBound (dotState (particleSphere ?svc) 0) = 2 / 5"
    "settleDelay (dotState (particleSphere ?svc) 0) = 23"
    unfolding ps by (rule ex_held_measures)+
  have b: "offsetBound (dotState (particleSphere ?svc) 0) * 0.97 ^ 23 < 1 / 5"
    unfolding m by (simp add: power_divide)
  have l: "settleDelay (dotState (particleSphere ?svc) 0) + 23 \<le> length (replicate 46 equatorFrame)"
    unfolding m by simp
  have q0: "list_all (\<lambda>fr. noProximity (particleSphere ?svc) fr 0) (replicate 46 equatorFrame)"
    unfolding ps by (simp add: list_all_iff ex_equator_quiet)
  note A = untouched_point_returns_home[OF sz i0 e, of equatorFrame]
  note B = untouched_point_returns_home[OF sz i1 e, of equatorFrame]
  have r1: "returnTimer (particleSphere (fst (update ?svc equatorFrame))) 0 = 0"
    using A equatorFrame_fields(1,2,3) untouched by blast
  have "spreadOffset ?ps1 1 = multiplyScalar (spreadOffset (particleSphere ?svc) 1) 0.97"
    and "spreadOffset (particleSphere (fst (update ?svc equatorFrame))) 1 =
              multiplyScalar (spreadOffset (particleSphere ?svc) 1) 0.97"
    using B rest(1,2) q1 by blast+
  then have r2: "spreadOffset ?ps1 1 = Vec3 0 (- 97 / 250) 0"
    "spreadOffset (particleSphere (fst (update ?svc equatorFrame))) 1 = Vec3 0 (- 97 / 250) 0"
    unfolding rest(3) sc by simp_all
  have r3: "vlength (spreadOffset (particleSphere
              (runFrames ?svc (replicate 46 equatorFrame))) 0) < 1 / 5"
    using A b l q0 by blast
  show ?thesis
    using sz i0 i1 e equatorFrame_fields(1,2,3) untouched t0 t1 r1 rest q1 r2 o0 m b l q0 r3
    by blast
qed

end
